theory Spec2Isabelle
  imports Main "HOL-Library.Word" "HOL-Library.Sublist" "HOL-Library.AList"
begin

section \<open>ServerNetworkManager.cpp: data model\<close>

text \<open>
  The server is single threaded: every callback runs to completion inside
  \<open>io_service::poll()\<close>. A member function is modelled as a function from the state
  before the call to the state after it, together with the asynchronous operations the
  call has initiated on the sockets. The diagnostic output (\<open>DEBUG && (cout << ...)\<close>)
  changes no state and is left out.
\<close>

type_synonym byte = "8 word"

text \<open>\<open>udp::endpoint\<close>: an address and a port; the default constructed endpoint is 0.0.0.0:0.\<close>

datatype endpoint = Endpoint (ep_address: nat) (ep_port: nat)

definition default_endpoint :: endpoint where
  "default_endpoint = Endpoint 0 0"

text \<open>
  \<open>PSMoveDataFrame::Response\<close>: the fields this file reads or writes, and the
  remaining content as bytes.
\<close>

datatype ResponseType = CONNECTION_INFO | OtherResponseType nat
datatype ResultCode = RESULT_OK | OtherResultCode nat

record Response =
  response_type :: ResponseType
  request_id :: int
  result_code :: ResultCode
  tcp_connection_id :: "int option"
  response_rest :: "byte list"

text \<open>
  A \<open>ResponsePtr\<close> is a shared pointer to a \<open>Response\<close> object: the queues hold
  pointers, and \<open>set_request_id\<close> writes through a pointer into the object, which
  every holder of the pointer sees. The objects live in a store from pointers to
  objects. The connection-info response that \<open>send_connection_info\<close> creates with
  \<open>new\<close> for connection \<open>n\<close> has the address \<open>ConnectionInfoPtr n\<close>, which is fresh
  since \<open>start()\<close> runs at most once on a connection; the responses of the request
  handler and of the callers of the server have the addresses \<open>HostPtr k\<close>. A pointer
  always points to an object: the null pointer is no input of the model, and a cell
  that nobody has written holds a default-constructed message.
\<close>

datatype ResponsePtr = ConnectionInfoPtr int | HostPtr nat

type_synonym response_store = "ResponsePtr \<Rightarrow> Response"

definition default_Response :: Response where
  "default_Response =
     \<lparr> response_type = OtherResponseType 0, request_id = 0, result_code = OtherResultCode 0,
       tcp_connection_id = None, response_rest = [] \<rparr>"

text \<open>
  \<open>PSMoveDataFrame::ControllerDataFrame\<close> is opaque to this file, which only asks for
  its \<open>ByteSize()\<close> and serialises it: a frame is given by its serialised bytes.
  The queues hold pointers to frames as well; this file never writes to a frame, and a
  frame is taken as not written by its producer once it is handed to the server, so a
  queue of pointers to frames is the list of the frames.
\<close>

datatype ControllerDataFrame = ControllerDataFrame (frame_bytes: "byte list")

definition ByteSize :: "ControllerDataFrame \<Rightarrow> nat" where
  "ByteSize f = length (frame_bytes f)"

text \<open>
  The constants \<open>HEADER_SIZE\<close> and \<open>MAX_DATA_FRAME_MESSAGE_SIZE\<close> and the
  serialisation of a response are declared outside this file (packedmessage.h,
  DataFrameInterface.h, PSMoveDataFrame.pb.h): they are parameters of the model.
\<close>

record wire =
  HEADER_SIZE :: nat
  MAX_DATA_FRAME_MESSAGE_SIZE :: nat
  serialize_response :: "Response \<Rightarrow> byte list"

text \<open>
  Modelled from the spec: \<open>PackedMessage::encode_header\<close> of packedmessage.h, which is
  not part of this file. The header is a fixed-width unsigned integer of \<open>HEADER_SIZE\<close>
  bytes giving the body length; the byte order (only required to be consistent) is taken
  most significant byte first.
\<close>

definition encode_header :: "nat \<Rightarrow> nat \<Rightarrow> byte list" where
  "encode_header hs n = map (\<lambda>i. of_nat (n div 256 ^ (hs - 1 - i))) [0..<hs]"

text \<open>
  Modelled from the spec: \<open>PackedMessage::pack(vector)\<close> of packedmessage.h, the
  stream envelope: the buffer is resized to header plus body.
\<close>

definition pack_vector :: "wire \<Rightarrow> Response \<Rightarrow> byte list" where
  "pack_vector w r =
     encode_header (HEADER_SIZE w) (length (serialize_response w r)) @ serialize_response w r"

text \<open>
  Modelled from the spec: \<open>PackedMessage::pack(buffer, buffer_size)\<close> of packedmessage.h,
  the encoding into a fixed buffer. It fails (\<open>None\<close>, the \<open>false\<close> of the source) when
  header plus body exceed \<open>buffer_size\<close>; otherwise the envelope overwrites the first
  bytes of the buffer and the bytes behind it stay as they were.
\<close>

definition pack_buffer :: "wire \<Rightarrow> ControllerDataFrame \<Rightarrow> byte list \<Rightarrow> nat \<Rightarrow> byte list option" where
  "pack_buffer w f buf buffer_size =
     (if HEADER_SIZE w + ByteSize f > buffer_size then None
      else Some (encode_header (HEADER_SIZE w) (ByteSize f) @ frame_bytes f
                 @ drop (HEADER_SIZE w + ByteSize f) buf))"

text \<open>\<open>sizeof(m_dataframe_write_buffer)\<close>\<close>

definition dataframe_buffer_size :: "wire \<Rightarrow> nat" where
  "dataframe_buffer_size w = HEADER_SIZE w + MAX_DATA_FRAME_MESSAGE_SIZE w"

text \<open>
  The asynchronous operations this file initiates. An operation stays outstanding until
  the \<open>io_service\<close> invokes its completion handler. A write records the message it was
  packed from, the bytes its buffer holds when the write is initiated and, for a
  datagram, the destination.
  \<open>UdpReceivedConnectionId\<close> is a rendezvous receive that the socket library has
  completed, the datagram stored in the buffer the receive was started on, and whose
  handler has not run yet.
\<close>

datatype async_op =
    TcpAsyncAccept int
  | TcpAsyncReadHeader int
  | TcpAsyncReadBody int nat
  | TcpAsyncWrite int ResponsePtr "byte list"
  | UdpAsyncSendDataFrame int ControllerDataFrame "byte list" endpoint
  | UdpAsyncReceiveConnectionId
  | UdpReceivedConnectionId
  | UdpAsyncSendConnectionResult bool endpoint

record ClientConnection =
  m_connection_id :: int
  m_tcp_socket_open :: bool
  m_udp_remote_endpoint :: endpoint
  m_request_read_buffer :: "byte list"
  m_response_write_buffer :: "byte list"
  m_packed_response :: "ResponsePtr option"
  m_dataframe_write_buffer :: "byte list"
  m_packed_dataframe :: "ControllerDataFrame option"
  m_pending_responses :: "ResponsePtr list"
  m_pending_dataframes :: "ControllerDataFrame list"
  m_connection_stopped :: bool
  m_has_pending_tcp_write :: bool
  m_has_pending_udp_write :: bool

section \<open>ClientConnection\<close>

text \<open>The constructor; the caller increments \<open>next_connection_id\<close>.\<close>

definition new_ClientConnection :: "wire \<Rightarrow> int \<Rightarrow> ClientConnection" where
  "new_ClientConnection w next_connection_id =
     \<lparr> m_connection_id = next_connection_id,
       m_tcp_socket_open = False,
       m_udp_remote_endpoint = default_endpoint,
       m_request_read_buffer = [],
       m_response_write_buffer = [],
       m_packed_response = None,
       m_dataframe_write_buffer = replicate (dataframe_buffer_size w) 0,
       m_packed_dataframe = None,
       m_pending_responses = [],
       m_pending_dataframes = [],
       m_connection_stopped = False,
       m_has_pending_tcp_write = False,
       m_has_pending_udp_write = False \<rparr>"

text \<open>
  How a call ends: it returns, or an exception of the socket library
  (\<open>boost::system::system_error\<close>) leaves it, or the program ends there
  (\<open>Undefined\<close>): undefined behaviour (\<open>pop_front\<close> on an empty deque, a member
  function called on a destroyed object) or a failed assertion. \<open>Return\<close> and
  \<open>Throw\<close> carry the state at that point.
\<close>

datatype 'a outcome = Return 'a | Throw 'a | Undefined

text \<open>
  \<open>stop()\<close>. \<open>m_tcp_socket.shutdown(shutdown_both)\<close> is the overload of the socket
  library that throws when the shutdown fails; whether it succeeds is decided by the
  environment (\<open>shutdown_ok\<close>). The exception leaves \<open>stop\<close> before any member is
  written. An error of \<open>close\<close> is only printed.
\<close>

definition stop :: "bool \<Rightarrow> ClientConnection \<Rightarrow> ClientConnection outcome" where
  "stop shutdown_ok c =
     (if m_tcp_socket_open c then
        (if shutdown_ok then
           Return (c\<lparr> m_tcp_socket_open := False,
                      m_connection_stopped := True,
                      m_has_pending_tcp_write := False,
                      m_has_pending_udp_write := False \<rparr>)
         else Throw c)
      else
        Return (c\<lparr> m_connection_stopped := True,
                   m_has_pending_tcp_write := False,
                   m_has_pending_udp_write := False \<rparr>))"

definition bind_udp_remote_endpoint :: "endpoint \<Rightarrow> ClientConnection \<Rightarrow> ClientConnection" where
  "bind_udp_remote_endpoint connecting_remote_endpoint c =
     c\<lparr> m_udp_remote_endpoint := connecting_remote_endpoint \<rparr>"

definition has_pending_udp_write :: "ClientConnection \<Rightarrow> bool" where
  "has_pending_udp_write c = m_has_pending_udp_write c"

definition has_queued_controller_data_frames :: "ClientConnection \<Rightarrow> bool" where
  "has_queued_controller_data_frames c = (length (m_pending_dataframes c) > 0)"

definition add_tcp_response_to_write_queue :: "ResponsePtr \<Rightarrow> ClientConnection \<Rightarrow> ClientConnection" where
  "add_tcp_response_to_write_queue response c =
     c\<lparr> m_pending_responses := m_pending_responses c @ [response] \<rparr>"

text \<open>
  \<open>start_tcp_write_queued_response()\<close> returns \<open>write_in_progress\<close>, the connection
  afterwards and the operations it has initiated. It packs the message the head pointer
  points to, as the store \<open>h\<close> holds it at the time of the call.
\<close>

definition start_tcp_write_queued_response ::
  "wire \<Rightarrow> response_store \<Rightarrow> ClientConnection \<Rightarrow> bool \<times> ClientConnection \<times> async_op list" where
  "start_tcp_write_queued_response w h c =
     (if \<not> m_connection_stopped c then
        (if \<not> m_has_pending_tcp_write c then
           (case m_pending_responses c of
              response # _ \<Rightarrow>
                (True,
                 c\<lparr> m_packed_response := Some response,
                    m_response_write_buffer := pack_vector w (h response),
                    m_has_pending_tcp_write := True \<rparr>,
                 [TcpAsyncWrite (m_connection_id c) response (pack_vector w (h response))])
            | [] \<Rightarrow> (False, c, []))
         else (True, c, []))
      else (False, c, []))"

definition add_controller_data_frame_to_write_queue ::
  "ControllerDataFrame \<Rightarrow> ClientConnection \<Rightarrow> ClientConnection" where
  "add_controller_data_frame_to_write_queue data_frame c =
     c\<lparr> m_pending_dataframes := m_pending_dataframes c @ [data_frame] \<rparr>"

text \<open>
  \<open>start_udp_write_queued_controller_data_frame()\<close>. The datagram handed to
  \<open>async_send_to\<close> is \<open>buffer(m_dataframe_write_buffer, sizeof(m_dataframe_write_buffer))\<close>:
  the first \<open>sizeof\<close> bytes of the array, which is all of it.
\<close>

definition start_udp_write_queued_controller_data_frame ::
  "wire \<Rightarrow> ClientConnection \<Rightarrow> bool \<times> ClientConnection \<times> async_op list" where
  "start_udp_write_queued_controller_data_frame w c =
     (if \<not> m_connection_stopped c then
        (if \<not> m_has_pending_udp_write c then
           (case m_pending_dataframes c of
              dataframe # _ \<Rightarrow>
                (case pack_buffer w dataframe (m_dataframe_write_buffer c)
                        (dataframe_buffer_size w) of
                   Some buf \<Rightarrow>
                     (True,
                      c\<lparr> m_packed_dataframe := Some dataframe,
                         m_dataframe_write_buffer := buf,
                         m_has_pending_udp_write := True \<rparr>,
                      [UdpAsyncSendDataFrame (m_connection_id c) dataframe
                         (take (dataframe_buffer_size w) buf) (m_udp_remote_endpoint c)])
                 | None \<Rightarrow> (False, c\<lparr> m_packed_dataframe := Some dataframe \<rparr>, []))
            | [] \<Rightarrow> (False, c, []))
         else (True, c, []))
      else (False, c, []))"

text \<open>
  \<open>send_connection_info()\<close> creates a response object, so it returns the store as
  well.
\<close>

definition send_connection_info ::
  "wire \<Rightarrow> response_store \<Rightarrow> ClientConnection
     \<Rightarrow> response_store \<times> ClientConnection \<times> async_op list" where
  "send_connection_info w h c =
     (let response = ConnectionInfoPtr (m_connection_id c);
          h1 = h(response := default_Response
                   \<lparr> response_type := CONNECTION_INFO,
                      request_id := - 1,
                      result_code := RESULT_OK,
                      tcp_connection_id := Some (m_connection_id c) \<rparr>);
          c1 = add_tcp_response_to_write_queue response c;
          (_, c2, ops) = start_tcp_write_queued_response w h1 c1
      in (h1, c2, ops))"

text \<open>\<open>vector::resize\<close>: cut, or filled up with zero bytes.\<close>

definition resize :: "nat \<Rightarrow> byte list \<Rightarrow> byte list" where
  "resize n xs = take n xs @ replicate (n - length xs) 0"

definition start_tcp_read_request_header ::
  "wire \<Rightarrow> ClientConnection \<Rightarrow> ClientConnection \<times> async_op list" where
  "start_tcp_read_request_header w c =
     (c\<lparr> m_request_read_buffer := resize (HEADER_SIZE w) (m_request_read_buffer c) \<rparr>,
      [TcpAsyncReadHeader (m_connection_id c)])"

definition start ::
  "wire \<Rightarrow> response_store \<Rightarrow> ClientConnection
     \<Rightarrow> response_store \<times> ClientConnection \<times> async_op list" where
  "start w h c =
     (let c1 = c\<lparr> m_connection_stopped := False \<rparr>;
          (h1, c2, ops1) = send_connection_info w h c1;
          (c3, ops2) = start_tcp_read_request_header w c2
      in (h1, c3, ops1 @ ops2))"

text \<open>
  Modelled from the spec: \<open>PackedMessage::decode_header\<close> of packedmessage.h, the
  inverse of \<open>encode_header\<close>.
\<close>

definition decode_header :: "byte list \<Rightarrow> nat" where
  "decode_header bs = foldl (\<lambda>acc b. acc * 256 + unat b) 0 bs"

definition start_read_body :: "wire \<Rightarrow> nat \<Rightarrow> ClientConnection \<Rightarrow> ClientConnection \<times> async_op list" where
  "start_read_body w msg_len c =
     (c\<lparr> m_request_read_buffer := resize (HEADER_SIZE w + msg_len) (m_request_read_buffer c) \<rparr>,
      [TcpAsyncReadBody (m_connection_id c) msg_len])"

text \<open>
  The completion handlers of the reads. On success the socket library has stored the
  bytes read (\<open>received\<close>) in the buffer the read was started on.
\<close>

definition handle_tcp_read_request_header ::
  "wire \<Rightarrow> bool \<Rightarrow> byte list \<Rightarrow> ClientConnection \<Rightarrow> ClientConnection \<times> async_op list" where
  "handle_tcp_read_request_header w ok received c =
     (if ok then
        (let c1 = c\<lparr> m_request_read_buffer := take (HEADER_SIZE w) received \<rparr>;
             msg_len = decode_header (m_request_read_buffer c1)
         in start_read_body w msg_len c1)
      else (c, []))"

text \<open>
  \<open>handle_request()\<close>: parsing the request and the request handler are outside this
  file; \<open>handled\<close> is \<open>None\<close> when \<open>unpack\<close> fails and the pointer the handler
  returns otherwise.
\<close>

definition handle_request ::
  "wire \<Rightarrow> response_store \<Rightarrow> ResponsePtr option \<Rightarrow> ClientConnection
     \<Rightarrow> ClientConnection \<times> async_op list" where
  "handle_request w h handled c =
     (case handled of
        Some response \<Rightarrow>
          (let c1 = add_tcp_response_to_write_queue response c;
               (_, c2, ops) = start_tcp_write_queued_response w h c1
           in (c2, ops))
      | None \<Rightarrow> (c, []))"

definition handle_read_body ::
  "wire \<Rightarrow> response_store \<Rightarrow> bool \<Rightarrow> byte list \<Rightarrow> ResponsePtr option \<Rightarrow> ClientConnection
     \<Rightarrow> ClientConnection \<times> async_op list" where
  "handle_read_body w h ok received handled c =
     (if ok then
        (let c1 = c\<lparr> m_request_read_buffer :=
                       take (HEADER_SIZE w) (m_request_read_buffer c)
                       @ take (length (m_request_read_buffer c) - HEADER_SIZE w) received \<rparr>;
             (c2, ops1) = handle_request w h handled c1;
             (c3, ops2) = start_tcp_read_request_header w c2
         in (c3, ops1 @ ops2))
      else (c, []))"

text \<open>
  The completion handlers of the writes; \<open>ok\<close> is \<open>!ec\<close>. \<open>pop_front\<close> on an empty
  deque is undefined behaviour.
\<close>

definition handle_write_response_complete ::
  "wire \<Rightarrow> response_store \<Rightarrow> bool \<Rightarrow> bool \<Rightarrow> ClientConnection
     \<Rightarrow> (ClientConnection \<times> async_op list) outcome" where
  "handle_write_response_complete w h ok shutdown_ok c =
     (if m_connection_stopped c then Return (c, [])
      else if ok then
        (case m_pending_responses c of
           [] \<Rightarrow> Undefined
         | _ # rest \<Rightarrow>
             (let c1 = c\<lparr> m_has_pending_tcp_write := False, m_pending_responses := rest \<rparr>;
                  (_, c2, ops) = start_tcp_write_queued_response w h c1
              in Return (c2, ops)))
      else
        (case stop shutdown_ok c of
           Return c1 \<Rightarrow> Return (c1, [])
         | Throw c1 \<Rightarrow> Throw (c1, [])
         | Undefined \<Rightarrow> Undefined))"

definition handle_udp_write_controller_data_frame_complete ::
  "bool \<Rightarrow> bool \<Rightarrow> ClientConnection \<Rightarrow> (ClientConnection \<times> async_op list) outcome" where
  "handle_udp_write_controller_data_frame_complete ok shutdown_ok c =
     (if m_connection_stopped c then Return (c, [])
      else if ok then
        (case m_pending_dataframes c of
           [] \<Rightarrow> Undefined
         | _ # rest \<Rightarrow>
             Return (c\<lparr> m_has_pending_udp_write := False, m_pending_dataframes := rest \<rparr>, []))
      else
        (case stop shutdown_ok c of
           Return c1 \<Rightarrow> Return (c1, [])
         | Throw c1 \<Rightarrow> Throw (c1, [])
         | Undefined \<Rightarrow> Undefined))"

section \<open>One connection and its transport\<close>

text \<open>
  The operations a connection has initiated stay outstanding until their completion
  handler runs. \<open>take_first P ops\<close> takes the oldest outstanding operation that
  satisfies \<open>P\<close> out of the list.
\<close>

fun take_first :: "('a \<Rightarrow> bool) \<Rightarrow> 'a list \<Rightarrow> ('a \<times> 'a list) option" where
  "take_first P [] = None"
| "take_first P (x # xs) =
     (if P x then Some (x, xs)
      else (case take_first P xs of None \<Rightarrow> None | Some (y, ys) \<Rightarrow> Some (y, x # ys)))"

fun is_response_write :: "async_op \<Rightarrow> bool" where
  "is_response_write (TcpAsyncWrite _ _ _) = True"
| "is_response_write _ = False"

fun is_data_frame_write :: "async_op \<Rightarrow> bool" where
  "is_data_frame_write (UdpAsyncSendDataFrame _ _ _ _) = True"
| "is_data_frame_write _ = False"

fun written_responses :: "async_op list \<Rightarrow> ResponsePtr list" where
  "written_responses [] = []"
| "written_responses (TcpAsyncWrite _ r _ # ops) = r # written_responses ops"
| "written_responses (_ # ops) = written_responses ops"

fun written_data_frames :: "async_op list \<Rightarrow> ControllerDataFrame list" where
  "written_data_frames [] = []"
| "written_data_frames (UdpAsyncSendDataFrame _ f _ _ # ops) = f # written_data_frames ops"
| "written_data_frames (_ # ops) = written_data_frames ops"

text \<open>
  What can happen to one connection: the public queue operations, \<open>stop()\<close>,
  \<open>bind_udp_remote_endpoint\<close>, and the completion of an outstanding write with its
  error code (\<open>ok\<close>) and, for the \<open>stop()\<close> a failed write causes, whether the
  shutdown of the socket succeeds. A response is enqueued by its pointer;
  \<open>Write_payload\<close> is a holder of a response pointer writing the object.
\<close>

datatype conn_event =
    Enqueue_response ResponsePtr
  | Write_payload ResponsePtr Response
  | Start_response_write
  | Response_write_complete bool bool
  | Enqueue_data_frame ControllerDataFrame
  | Start_data_frame_write
  | Data_frame_write_complete bool bool
  | Stop bool
  | Bind_udp_remote_endpoint endpoint

text \<open>
  The connection together with the response objects, its outstanding operations and the
  history of the run:
  the writes that completed without error, in the order of their completion, and the
  items enqueued on each queue, in the order of the calls.
\<close>

record conn_run =
  conn :: ClientConnection
  payloads :: response_store
  outstanding :: "async_op list"
  completed :: "async_op list"
  responses_enqueued :: "ResponsePtr list"
  data_frames_enqueued :: "ControllerDataFrame list"

definition conn_init :: "wire \<Rightarrow> int \<Rightarrow> conn_run" where
  "conn_init w n =
     \<lparr> conn = new_ClientConnection w n, payloads = (\<lambda>_. default_Response),
       outstanding = [], completed = [],
       responses_enqueued = [], data_frames_enqueued = [] \<rparr>"

text \<open>
  One event. A completion event needs an outstanding write of its kind (otherwise
  nothing happens); the handler runs on the oldest one. \<open>None\<close> is undefined behaviour.
\<close>

definition finish_handler ::
  "conn_run \<Rightarrow> async_op \<Rightarrow> async_op list \<Rightarrow> bool
     \<Rightarrow> (ClientConnection \<times> async_op list) outcome \<Rightarrow> conn_run option" where
  "finish_handler t op rest ok res =
     (case res of
        Return (c, ops) \<Rightarrow>
          Some (t\<lparr> conn := c, outstanding := rest @ ops,
                   completed := (if ok then completed t @ [op] else completed t) \<rparr>)
      | Throw (c, ops) \<Rightarrow>
          Some (t\<lparr> conn := c, outstanding := rest @ ops,
                   completed := (if ok then completed t @ [op] else completed t) \<rparr>)
      | Undefined \<Rightarrow> None)"

fun conn_step :: "wire \<Rightarrow> conn_event \<Rightarrow> conn_run \<Rightarrow> conn_run option" where
  "conn_step w (Enqueue_response r) t =
     Some (t\<lparr> conn := add_tcp_response_to_write_queue r (conn t),
              responses_enqueued := responses_enqueued t @ [r] \<rparr>)"
| "conn_step w (Write_payload r v) t = Some (t\<lparr> payloads := (payloads t)(r := v) \<rparr>)"
| "conn_step w Start_response_write t =
     (case start_tcp_write_queued_response w (payloads t) (conn t) of
        (_, c, ops) \<Rightarrow> Some (t\<lparr> conn := c, outstanding := outstanding t @ ops \<rparr>))"
| "conn_step w (Response_write_complete ok shutdown_ok) t =
     (case take_first is_response_write (outstanding t) of
        None \<Rightarrow> Some t
      | Some (op, rest) \<Rightarrow>
          finish_handler t op rest ok
            (handle_write_response_complete w (payloads t) ok shutdown_ok (conn t)))"
| "conn_step w (Enqueue_data_frame f) t =
     Some (t\<lparr> conn := add_controller_data_frame_to_write_queue f (conn t),
              data_frames_enqueued := data_frames_enqueued t @ [f] \<rparr>)"
| "conn_step w Start_data_frame_write t =
     (case start_udp_write_queued_controller_data_frame w (conn t) of
        (_, c, ops) \<Rightarrow> Some (t\<lparr> conn := c, outstanding := outstanding t @ ops \<rparr>))"
| "conn_step w (Data_frame_write_complete ok shutdown_ok) t =
     (case take_first is_data_frame_write (outstanding t) of
        None \<Rightarrow> Some t
      | Some (op, rest) \<Rightarrow>
          finish_handler t op rest ok
            (handle_udp_write_controller_data_frame_complete ok shutdown_ok (conn t)))"
| "conn_step w (Stop shutdown_ok) t =
     (case stop shutdown_ok (conn t) of
        Return c \<Rightarrow> Some (t\<lparr> conn := c \<rparr>)
      | Throw c \<Rightarrow> Some (t\<lparr> conn := c \<rparr>)
      | Undefined \<Rightarrow> None)"
| "conn_step w (Bind_udp_remote_endpoint e) t =
     Some (t\<lparr> conn := bind_udp_remote_endpoint e (conn t) \<rparr>)"

fun conn_exec :: "wire \<Rightarrow> conn_event list \<Rightarrow> conn_run \<Rightarrow> conn_run option" where
  "conn_exec w [] t = Some t"
| "conn_exec w (e # es) t =
     (case conn_step w e t of None \<Rightarrow> None | Some t' \<Rightarrow> conn_exec w es t')"

section \<open>ServerNetworkManagerImpl\<close>

text \<open>
  A \<open>ClientConnectionPtr\<close> is a shared pointer. The objects live in \<open>objects\<close>, a
  store from pointers to \<open>ClientConnection\<close> objects (an association list, read with
  \<open>map_of\<close> and written with \<open>AList.update\<close>); an object is created by
  \<open>start_tcp_accept\<close> only, with a fresh connection id, and the id serves as its
  address. The registry \<open>connections\<close> (a \<open>std::map\<close>) is the list of its entries
  in the order of the keys. An object is destroyed when the last shared pointer to it
  is gone (\<open>destroy_unreferenced\<close> below) and is then no longer in the store.
  \<open>io_outstanding\<close> are the operations whose handler the \<open>io_service\<close> has not yet
  run, oldest first. \<open>next_connection_id\<close> is the static member of
  \<open>ClientConnection\<close>. \<open>responses\<close> is no member of the class: it is the part of the
  heap that holds the \<open>Response\<close> objects, which the server shares with its callers.
\<close>

type_synonym ClientConnectionPtr = int

record ServerNetworkManagerImpl =
  next_connection_id :: int
  objects :: "(ClientConnectionPtr \<times> ClientConnection) list"
  connections :: "(int \<times> ClientConnectionPtr) list"
  udp_connecting_remote_endpoint :: endpoint
  m_udp_connection_id_read_buffer :: int
  m_udp_connection_result_write_buffer :: bool
  io_outstanding :: "async_op list"
  responses :: response_store

text \<open>
  The constructor. The two datagram buffers are not initialised by the source; each is
  written before it is read.
\<close>

definition new_ServerNetworkManagerImpl :: ServerNetworkManagerImpl where
  "new_ServerNetworkManagerImpl =
     \<lparr> next_connection_id = 0,
       objects = [],
       connections = [],
       udp_connecting_remote_endpoint = default_endpoint,
       m_udp_connection_id_read_buffer = 0,
       m_udp_connection_result_write_buffer = False,
       io_outstanding = [],
       responses = (\<lambda>_. default_Response) \<rparr>"

text \<open>\<open>std::map::insert\<close>: in the order of the keys; an existing key keeps its entry.\<close>

fun map_insert :: "int \<Rightarrow> 'v \<Rightarrow> (int \<times> 'v) list \<Rightarrow> (int \<times> 'v) list" where
  "map_insert k v [] = [(k, v)]"
| "map_insert k v ((k', v') # m) =
     (if k < k' then (k, v) # (k', v') # m
      else if k = k' then (k', v') # m
      else (k', v') # map_insert k v m)"

text \<open>Sequencing of calls: an exception or undefined behaviour ends the caller too.\<close>

definition and_then ::
  "ServerNetworkManagerImpl outcome \<Rightarrow> (ServerNetworkManagerImpl \<Rightarrow> ServerNetworkManagerImpl outcome)
     \<Rightarrow> ServerNetworkManagerImpl outcome" where
  "and_then r f = (case r of Return s \<Rightarrow> f s | Throw s \<Rightarrow> Throw s | Undefined \<Rightarrow> Undefined)"

text \<open>
  A member function called through a pointer: the object is replaced by the one the
  call leaves and the operations it initiated become outstanding.
\<close>

definition call_on ::
  "ClientConnectionPtr \<Rightarrow> (ClientConnection \<Rightarrow> (ClientConnection \<times> async_op list) outcome)
     \<Rightarrow> ServerNetworkManagerImpl \<Rightarrow> ServerNetworkManagerImpl outcome" where
  "call_on p f s =
     (case map_of (objects s) p of
        None \<Rightarrow> Undefined
      | Some c \<Rightarrow>
          (case f c of
             Return (c', ops) \<Rightarrow>
               Return (s\<lparr> objects := AList.update p c' (objects s),
                           io_outstanding := io_outstanding s @ ops \<rparr>)
           | Throw (c', ops) \<Rightarrow>
               Throw (s\<lparr> objects := AList.update p c' (objects s),
                          io_outstanding := io_outstanding s @ ops \<rparr>)
           | Undefined \<Rightarrow> Undefined))"

text \<open>
  The lifetime of a connection object. Shared pointers to it are held by the registry
  and by the handlers of its accept and of its reads (\<open>new_connection\<close>,
  \<open>shared_from_this()\<close>); the handlers of its writes are bound to the raw \<open>this\<close>
  and hold none. When a holder lets go, the objects without a holder are destroyed; the
  destructor asserts that the socket is closed. A write handler that runs afterwards is
  a member function called on a destroyed object.
\<close>

fun holds_shared_pointer :: "ClientConnectionPtr \<Rightarrow> async_op \<Rightarrow> bool" where
  "holds_shared_pointer p (TcpAsyncAccept i) = (i = p)"
| "holds_shared_pointer p (TcpAsyncReadHeader i) = (i = p)"
| "holds_shared_pointer p (TcpAsyncReadBody i _) = (i = p)"
| "holds_shared_pointer p _ = False"

definition referenced :: "ServerNetworkManagerImpl \<Rightarrow> ClientConnectionPtr \<Rightarrow> bool" where
  "referenced s p =
     (p \<in> snd ` set (connections s) \<or> (\<exists>op\<in>set (io_outstanding s). holds_shared_pointer p op))"

definition destroy_unreferenced :: "ServerNetworkManagerImpl \<Rightarrow> ServerNetworkManagerImpl outcome" where
  "destroy_unreferenced s =
     (if \<exists>(p, c)\<in>set (objects s). \<not> referenced s p \<and> m_tcp_socket_open c then Undefined
      else Return (s\<lparr> objects := filter (\<lambda>(p, c). referenced s p) (objects s) \<rparr>))"

definition start_udp_receive_connection_id :: "ServerNetworkManagerImpl \<Rightarrow> ServerNetworkManagerImpl" where
  "start_udp_receive_connection_id s =
     s\<lparr> io_outstanding := io_outstanding s @ [UdpAsyncReceiveConnectionId] \<rparr>"

definition start_tcp_accept :: "wire \<Rightarrow> ServerNetworkManagerImpl \<Rightarrow> ServerNetworkManagerImpl" where
  "start_tcp_accept w s =
     (let new_connection = next_connection_id s;
          s1 = s\<lparr> next_connection_id := next_connection_id s + 1,
                   objects := AList.update new_connection
                                (new_ClientConnection w (next_connection_id s)) (objects s) \<rparr>;
          s2 = s1\<lparr> connections := map_insert new_connection new_connection (connections s1) \<rparr>;
          s3 = s2\<lparr> io_outstanding := io_outstanding s2 @ [TcpAsyncAccept new_connection] \<rparr>
      in start_udp_receive_connection_id s3)"

text \<open>\<open>ServerNetworkManager::startup()\<close> on a new server.\<close>

definition startup :: "wire \<Rightarrow> ServerNetworkManagerImpl" where
  "startup w = start_tcp_accept w new_ServerNetworkManagerImpl"

text \<open>
  \<open>handle_tcp_accept\<close>: when the accept has succeeded the socket library has opened
  the connection's socket.
\<close>

definition handle_tcp_accept ::
  "wire \<Rightarrow> ClientConnectionPtr \<Rightarrow> bool \<Rightarrow> ServerNetworkManagerImpl \<Rightarrow> ServerNetworkManagerImpl outcome" where
  "handle_tcp_accept w connection ok s =
     (if ok then
        (case map_of (objects s) connection of
           None \<Rightarrow> Undefined
         | Some c \<Rightarrow>
             (case start w (responses s) (c\<lparr> m_tcp_socket_open := True \<rparr>) of
                (h, c', ops) \<Rightarrow>
                  Return (start_tcp_accept w
                            (s\<lparr> responses := h,
                                objects := AList.update connection c' (objects s),
                                io_outstanding := io_outstanding s @ ops \<rparr>))))
      else Return s)"

definition start_udp_send_connection_result ::
  "bool \<Rightarrow> ServerNetworkManagerImpl \<Rightarrow> ServerNetworkManagerImpl" where
  "start_udp_send_connection_result success s =
     s\<lparr> m_udp_connection_result_write_buffer := success,
        io_outstanding := io_outstanding s
          @ [UdpAsyncSendConnectionResult success (udp_connecting_remote_endpoint s)] \<rparr>"

definition handle_udp_read_connection_id ::
  "bool \<Rightarrow> ServerNetworkManagerImpl \<Rightarrow> ServerNetworkManagerImpl outcome" where
  "handle_udp_read_connection_id ok s =
     (if ok then
        (case map_of (connections s) (m_udp_connection_id_read_buffer s) of
           Some connection \<Rightarrow>
             and_then
               (call_on connection
                  (\<lambda>c. Return (bind_udp_remote_endpoint (udp_connecting_remote_endpoint s) c, [])) s)
               (\<lambda>s1. Return (start_udp_send_connection_result True s1))
         | None \<Rightarrow> Return (start_udp_send_connection_result False s))
      else Return s)"

definition handle_udp_write_connection_result ::
  "bool \<Rightarrow> ServerNetworkManagerImpl \<Rightarrow> ServerNetworkManagerImpl" where
  "handle_udp_write_connection_result ok s = start_udp_receive_connection_id s"

text \<open>
  \<open>start_udp_queued_data_frame_write\<close>: the loop over the registry, from the entry
  the iterator is at.
\<close>

fun start_udp_queued_data_frame_write_from ::
  "wire \<Rightarrow> (int \<times> ClientConnectionPtr) list \<Rightarrow> ServerNetworkManagerImpl
     \<Rightarrow> ServerNetworkManagerImpl outcome" where
  "start_udp_queued_data_frame_write_from w [] s = Return s"
| "start_udp_queued_data_frame_write_from w ((k, connection) # rest) s =
     (case map_of (objects s) connection of
        None \<Rightarrow> Undefined
      | Some c \<Rightarrow>
          (case start_udp_write_queued_controller_data_frame w c of
             (write_in_progress, c', ops) \<Rightarrow>
               (let s1 = s\<lparr> objects := AList.update connection c' (objects s),
                               io_outstanding := io_outstanding s @ ops \<rparr>
                in if write_in_progress then Return s1
                   else start_udp_queued_data_frame_write_from w rest s1)))"

definition start_udp_queued_data_frame_write ::
  "wire \<Rightarrow> ServerNetworkManagerImpl \<Rightarrow> ServerNetworkManagerImpl outcome" where
  "start_udp_queued_data_frame_write w s =
     start_udp_queued_data_frame_write_from w (connections s) s"

text \<open>
  \<open>has_queued_controller_data_frames_ready_to_start\<close>: the loop carries
  \<open>has_queued_write_ready_to_start\<close>; a pending write ends it with
  \<open>udp_socket_available = false\<close>. \<open>None\<close> is a pointer to no object.
\<close>

fun has_queued_controller_data_frames_ready_to_start_from ::
  "(int \<times> ClientConnectionPtr) list \<Rightarrow> ServerNetworkManagerImpl \<Rightarrow> bool \<Rightarrow> bool option" where
  "has_queued_controller_data_frames_ready_to_start_from [] s has_queued_write_ready_to_start =
     Some (True \<and> has_queued_write_ready_to_start)"
| "has_queued_controller_data_frames_ready_to_start_from ((k, connection) # rest) s
       has_queued_write_ready_to_start =
     (case map_of (objects s) connection of
        None \<Rightarrow> None
      | Some c \<Rightarrow>
          if has_pending_udp_write c then Some (False \<and> has_queued_write_ready_to_start)
          else if has_queued_controller_data_frames c then
            has_queued_controller_data_frames_ready_to_start_from rest s True
          else
            has_queued_controller_data_frames_ready_to_start_from rest s
              has_queued_write_ready_to_start)"

definition has_queued_controller_data_frames_ready_to_start ::
  "ServerNetworkManagerImpl \<Rightarrow> bool option" where
  "has_queued_controller_data_frames_ready_to_start s =
     has_queued_controller_data_frames_ready_to_start_from (connections s) s False"

text \<open>
  \<open>poll()\<close>. What \<open>io_service.poll()\<close> does in an iteration (which handlers it
  runs, with which results, and what the request handler does inside them) is decided
  by the environment: \<open>io_service_poll i\<close> is the state transformer of the call in
  iteration \<open>i\<close>. The result is the number of iterations entered and how the call
  ended.
\<close>

definition k_max_iteration_count :: nat where
  "k_max_iteration_count = 32"

function poll_from ::
  "wire \<Rightarrow> (nat \<Rightarrow> ServerNetworkManagerImpl \<Rightarrow> ServerNetworkManagerImpl outcome)
     \<Rightarrow> bool \<Rightarrow> nat \<Rightarrow> ServerNetworkManagerImpl \<Rightarrow> nat \<times> ServerNetworkManagerImpl outcome" where
  "poll_from w io_service_poll keep_polling iteration_count s =
     (if keep_polling \<and> iteration_count < k_max_iteration_count then
        (case and_then (start_udp_queued_data_frame_write w s) (io_service_poll iteration_count) of
           Return s1 \<Rightarrow>
             (case has_queued_controller_data_frames_ready_to_start s1 of
                Some keep_polling' \<Rightarrow>
                  poll_from w io_service_poll keep_polling' (iteration_count + 1) s1
              | None \<Rightarrow> (iteration_count + 1, Undefined))
         | Throw s1 \<Rightarrow> (iteration_count + 1, Throw s1)
         | Undefined \<Rightarrow> (iteration_count + 1, Undefined))
      else (iteration_count, Return s))"
  by pat_completeness auto
termination
  by (relation "measure (\<lambda>(w, io, k, i, s). k_max_iteration_count - i)") auto

declare poll_from.simps [simp del]

definition poll ::
  "wire \<Rightarrow> (nat \<Rightarrow> ServerNetworkManagerImpl \<Rightarrow> ServerNetworkManagerImpl outcome)
     \<Rightarrow> ServerNetworkManagerImpl \<Rightarrow> nat \<times> ServerNetworkManagerImpl outcome" where
  "poll w io_service_poll s = poll_from w io_service_poll True 0 s"

text \<open>
  \<open>close_all_connections\<close>: \<open>shutdown_fails\<close> are the connections whose socket
  shutdown fails; the exception leaves the loop and the registry is not cleared.
  \<open>connections.clear()\<close> lets go of the registry's shared pointers.
\<close>

fun close_all_connections_from ::
  "int list \<Rightarrow> (int \<times> ClientConnectionPtr) list \<Rightarrow> ServerNetworkManagerImpl
     \<Rightarrow> ServerNetworkManagerImpl outcome" where
  "close_all_connections_from shutdown_fails [] s = Return s"
| "close_all_connections_from shutdown_fails ((k, clientConnection) # rest) s =
     and_then
       (call_on clientConnection
          (\<lambda>c. case stop (k \<notin> set shutdown_fails) c of
                  Return c' \<Rightarrow> Return (c', [])
                | Throw c' \<Rightarrow> Throw (c', [])
                | Undefined \<Rightarrow> Undefined) s)
       (close_all_connections_from shutdown_fails rest)"

definition close_all_connections ::
  "int list \<Rightarrow> ServerNetworkManagerImpl \<Rightarrow> ServerNetworkManagerImpl outcome" where
  "close_all_connections shutdown_fails s =
     and_then (close_all_connections_from shutdown_fails (connections s) s)
       (\<lambda>s1. destroy_unreferenced (s1\<lparr> connections := [] \<rparr>))"

text \<open>
  \<open>send_notification\<close>: \<open>set_request_id(-1)\<close> writes into the object the caller's
  pointer points to, after the registry has been searched and before the result of the
  search is tested.
\<close>

definition send_notification ::
  "wire \<Rightarrow> int \<Rightarrow> ResponsePtr \<Rightarrow> ServerNetworkManagerImpl \<Rightarrow> ServerNetworkManagerImpl outcome" where
  "send_notification w connection_id response s =
     (let entry = map_of (connections s) connection_id;
          s1 = s\<lparr> responses := (responses s)
                     (response := (responses s response)\<lparr> request_id := - 1 \<rparr>) \<rparr>
      in case entry of
           Some connection \<Rightarrow>
             call_on connection
               (\<lambda>c. case start_tcp_write_queued_response w (responses s1)
                            (add_tcp_response_to_write_queue response c) of
                       (_, c', ops) \<Rightarrow> Return (c', ops)) s1
         | None \<Rightarrow> Return s1)"

fun send_notification_to_all_clients_from ::
  "wire \<Rightarrow> ResponsePtr \<Rightarrow> (int \<times> ClientConnectionPtr) list \<Rightarrow> ServerNetworkManagerImpl
     \<Rightarrow> ServerNetworkManagerImpl outcome" where
  "send_notification_to_all_clients_from w response [] s = Return s"
| "send_notification_to_all_clients_from w response ((k, connection) # rest) s =
     and_then
       (call_on connection
          (\<lambda>c. case start_tcp_write_queued_response w (responses s)
                       (add_tcp_response_to_write_queue response c) of
                  (_, c', ops) \<Rightarrow> Return (c', ops)) s)
       (send_notification_to_all_clients_from w response rest)"

definition send_notification_to_all_clients ::
  "wire \<Rightarrow> ResponsePtr \<Rightarrow> ServerNetworkManagerImpl \<Rightarrow> ServerNetworkManagerImpl outcome" where
  "send_notification_to_all_clients w response s =
     (let s1 = s\<lparr> responses := (responses s)
                     (response := (responses s response)\<lparr> request_id := - 1 \<rparr>) \<rparr>
      in send_notification_to_all_clients_from w response (connections s1) s1)"

definition send_controller_data_frame ::
  "wire \<Rightarrow> int \<Rightarrow> ControllerDataFrame \<Rightarrow> ServerNetworkManagerImpl
     \<Rightarrow> ServerNetworkManagerImpl outcome" where
  "send_controller_data_frame w connection_id data_frame s =
     (case map_of (connections s) connection_id of
        Some connection \<Rightarrow>
          and_then
            (call_on connection
               (\<lambda>c. Return (add_controller_data_frame_to_write_queue data_frame c, [])) s)
            (start_udp_queued_data_frame_write w)
      | None \<Rightarrow> Return s)"

section \<open>Runs of the server\<close>

text \<open>
  What happens to a running server, one call at a time: a call of the public interface
  (with a response of the caller, \<open>HostPtr k\<close>, given by \<open>k\<close>), the caller writing
  one of its response objects, the scan of the registry that opens an iteration of
  \<open>poll()\<close>, or the \<open>io_service\<close> running the handler of an outstanding operation.
  A completion carries what the environment decides: the error code (\<open>ok\<close>), the bytes
  read, the response pointer the request handler returns, whether the socket shutdown
  of a \<open>stop()\<close> succeeds.

  All rendezvous receives are started on the one buffer
  \<open>m_udp_connection_id_read_buffer\<close> and the one endpoint
  \<open>udp_connecting_remote_endpoint\<close>, and several can be outstanding. So the receipt
  of a datagram and the run of the handler are two events: with \<open>Datagram_received\<close>
  the socket library completes the oldest receive and stores the identifier and the
  sender in the two members; \<open>Receive_connection_id_complete True\<close> is the
  \<open>io_service\<close> running the handler of the oldest completed receive, which reads the
  members as they are then. \<open>Receive_connection_id_complete False\<close> is a receive that
  fails, which stores nothing, and the run of its handler. Of the other operations only
  the reads of a connection store into a buffer, and a connection has one read
  outstanding at a time: the completion of such an operation and the run of its handler
  are one event.
\<close>

datatype event =
    Call_send_notification int nat
  | Call_send_notification_to_all_clients nat
  | Host_writes_response nat Response
  | Call_send_controller_data_frame int ControllerDataFrame
  | Call_shutdown "int list"
  | Telemetry_scan
  | Accept_complete ClientConnectionPtr bool
  | Read_header_complete ClientConnectionPtr bool "byte list"
  | Read_body_complete ClientConnectionPtr bool "byte list" "nat option"
  | Write_response_complete ClientConnectionPtr bool bool
  | Write_data_frame_complete ClientConnectionPtr bool bool
  | Datagram_received int endpoint
  | Receive_connection_id_complete bool
  | Send_connection_result_complete bool

fun is_accept_of :: "int \<Rightarrow> async_op \<Rightarrow> bool" where
  "is_accept_of p (TcpAsyncAccept i) = (i = p)"
| "is_accept_of p _ = False"

fun is_read_header_of :: "int \<Rightarrow> async_op \<Rightarrow> bool" where
  "is_read_header_of p (TcpAsyncReadHeader i) = (i = p)"
| "is_read_header_of p _ = False"

fun is_read_body_of :: "int \<Rightarrow> async_op \<Rightarrow> bool" where
  "is_read_body_of p (TcpAsyncReadBody i _) = (i = p)"
| "is_read_body_of p _ = False"

fun is_response_write_of :: "int \<Rightarrow> async_op \<Rightarrow> bool" where
  "is_response_write_of p (TcpAsyncWrite i _ _) = (i = p)"
| "is_response_write_of p _ = False"

fun is_data_frame_write_of :: "int \<Rightarrow> async_op \<Rightarrow> bool" where
  "is_data_frame_write_of p (UdpAsyncSendDataFrame i _ _ _) = (i = p)"
| "is_data_frame_write_of p _ = False"

text \<open>
  A rendezvous receive whose handler has not run: still waiting for a datagram
  (\<open>is_armed_receive\<close>), or completed with a datagram (\<open>is_received_connection_id\<close>).
\<close>

fun is_armed_receive :: "async_op \<Rightarrow> bool" where
  "is_armed_receive UdpAsyncReceiveConnectionId = True"
| "is_armed_receive _ = False"

fun is_received_connection_id :: "async_op \<Rightarrow> bool" where
  "is_received_connection_id UdpReceivedConnectionId = True"
| "is_received_connection_id _ = False"

fun is_receive_connection_id :: "async_op \<Rightarrow> bool" where
  "is_receive_connection_id UdpAsyncReceiveConnectionId = True"
| "is_receive_connection_id UdpReceivedConnectionId = True"
| "is_receive_connection_id _ = False"

text \<open>The socket library completes the oldest receive that waits for a datagram.\<close>

fun complete_receive :: "async_op list \<Rightarrow> async_op list option" where
  "complete_receive [] = None"
| "complete_receive (UdpAsyncReceiveConnectionId # ops) = Some (UdpReceivedConnectionId # ops)"
| "complete_receive (op # ops) =
     (case complete_receive ops of None \<Rightarrow> None | Some ops' \<Rightarrow> Some (op # ops'))"

fun is_send_connection_result :: "async_op \<Rightarrow> bool" where
  "is_send_connection_result (UdpAsyncSendConnectionResult _ _) = True"
| "is_send_connection_result _ = False"

text \<open>Writes on the shared datagram socket: data frames and rendezvous replies.\<close>

fun is_udp_write :: "async_op \<Rightarrow> bool" where
  "is_udp_write (UdpAsyncSendDataFrame _ _ _ _) = True"
| "is_udp_write (UdpAsyncSendConnectionResult _ _) = True"
| "is_udp_write _ = False"

text \<open>
  The \<open>io_service\<close> completes the oldest outstanding operation that satisfies \<open>P\<close> and
  runs its handler; without such an operation nothing happens.
\<close>

definition complete ::
  "(async_op \<Rightarrow> bool) \<Rightarrow> (ServerNetworkManagerImpl \<Rightarrow> ServerNetworkManagerImpl outcome)
     \<Rightarrow> ServerNetworkManagerImpl \<Rightarrow> ServerNetworkManagerImpl outcome" where
  "complete P handler s =
     (case take_first P (io_outstanding s) of
        None \<Rightarrow> Return s
      | Some (op, rest) \<Rightarrow> handler (s\<lparr> io_outstanding := rest \<rparr>))"

text \<open>
  The handler of an accept or of a read is bound with a shared pointer to the
  connection, which is let go when the handler has run.
\<close>

definition complete_shared ::
  "(async_op \<Rightarrow> bool) \<Rightarrow> (ServerNetworkManagerImpl \<Rightarrow> ServerNetworkManagerImpl outcome)
     \<Rightarrow> ServerNetworkManagerImpl \<Rightarrow> ServerNetworkManagerImpl outcome" where
  "complete_shared P handler s =
     complete P (\<lambda>s1. and_then (handler s1) destroy_unreferenced) s"

fun step :: "wire \<Rightarrow> event \<Rightarrow> ServerNetworkManagerImpl \<Rightarrow> ServerNetworkManagerImpl outcome" where
  "step w (Call_send_notification connection_id k) s =
     send_notification w connection_id (HostPtr k) s"
| "step w (Call_send_notification_to_all_clients k) s =
     send_notification_to_all_clients w (HostPtr k) s"
| "step w (Host_writes_response k v) s =
     Return (s\<lparr> responses := (responses s)(HostPtr k := v) \<rparr>)"
| "step w (Call_send_controller_data_frame connection_id data_frame) s =
     send_controller_data_frame w connection_id data_frame s"
| "step w (Call_shutdown shutdown_fails) s = close_all_connections shutdown_fails s"
| "step w Telemetry_scan s = start_udp_queued_data_frame_write w s"
| "step w (Accept_complete p ok) s =
     complete_shared (is_accept_of p) (handle_tcp_accept w p ok) s"
| "step w (Read_header_complete p ok received) s =
     complete_shared (is_read_header_of p)
       (call_on p (\<lambda>c. Return (handle_tcp_read_request_header w ok received c))) s"
| "step w (Read_body_complete p ok received handled) s =
     complete_shared (is_read_body_of p)
       (call_on p (\<lambda>c. Return (handle_read_body w (responses s) ok received
                                  (map_option HostPtr handled) c))) s"
| "step w (Write_response_complete p ok shutdown_ok) s =
     complete (is_response_write_of p)
       (call_on p (handle_write_response_complete w (responses s) ok shutdown_ok)) s"
| "step w (Write_data_frame_complete p ok shutdown_ok) s =
     complete (is_data_frame_write_of p)
       (call_on p (handle_udp_write_controller_data_frame_complete ok shutdown_ok)) s"
| "step w (Datagram_received connection_id sender) s =
     (case complete_receive (io_outstanding s) of
        None \<Rightarrow> Return s
      | Some ops \<Rightarrow>
          Return (s\<lparr> io_outstanding := ops,
                      m_udp_connection_id_read_buffer := connection_id,
                      udp_connecting_remote_endpoint := sender \<rparr>))"
| "step w (Receive_connection_id_complete ok) s =
     (if ok then complete is_received_connection_id (handle_udp_read_connection_id True) s
      else complete is_armed_receive (handle_udp_read_connection_id False) s)"
| "step w (Send_connection_result_complete ok) s =
     complete is_send_connection_result
       (\<lambda>s1. Return (handle_udp_write_connection_result ok s1)) s"

text \<open>
  A run from a state. After an exception the caller of the server may go on;
  \<open>Undefined\<close> ends the run (\<open>None\<close>).
\<close>

fun exec :: "wire \<Rightarrow> event list \<Rightarrow> ServerNetworkManagerImpl \<Rightarrow> ServerNetworkManagerImpl option" where
  "exec w [] s = Some s"
| "exec w (e # es) s =
     (case step w e s of
        Return s' \<Rightarrow> exec w es s'
      | Throw s' \<Rightarrow> exec w es s'
      | Undefined \<Rightarrow> None)"

section \<open>Concrete inputs and invariants\<close>

text \<open>A wire format with a header of 4 bytes and a frame buffer of 4 + 8 bytes.\<close>

definition example_wire :: wire where
  "example_wire =
     \<lparr> HEADER_SIZE = 4, MAX_DATA_FRAME_MESSAGE_SIZE = 8, serialize_response = response_rest \<rparr>"

definition small_frame :: ControllerDataFrame where
  "small_frame = ControllerDataFrame [1, 2]"

definition big_frame :: ControllerDataFrame where
  "big_frame = ControllerDataFrame [1, 2, 3, 4, 5, 6, 7, 8, 9]"

definition example_response :: Response where
  "example_response =
     \<lparr> response_type = OtherResponseType 1, request_id = 7, result_code = RESULT_OK,
       tcp_connection_id = None, response_rest = [5] \<rparr>"

definition example_sender :: endpoint where
  "example_sender = Endpoint 7 9"

text \<open>
  The invariant of a run of one connection. At most one write of each kind is
  outstanding; the completed writes followed by the outstanding one are the first items
  enqueued; and while the connection is not stopped, the items enqueued are the completed
  ones followed by the queue, and an outstanding write has its flag set.
\<close>

definition conn_inv :: "conn_run \<Rightarrow> bool" where
  "conn_inv t =
     (let c = conn t;
          wr = written_responses (outstanding t);
          wf = written_data_frames (outstanding t)
      in length wr \<le> 1
       \<and> prefix (written_responses (completed t) @ wr) (responses_enqueued t)
       \<and> (\<not> m_connection_stopped c \<longrightarrow>
            responses_enqueued t = written_responses (completed t) @ m_pending_responses c
            \<and> (wr \<noteq> [] \<longrightarrow> m_has_pending_tcp_write c))
       \<and> length wf \<le> 1
       \<and> prefix (written_data_frames (completed t) @ wf) (data_frames_enqueued t)
       \<and> (\<not> m_connection_stopped c \<longrightarrow>
            data_frames_enqueued t = written_data_frames (completed t) @ m_pending_dataframes c
            \<and> (wf \<noteq> [] \<longrightarrow> m_has_pending_udp_write c)))"

text \<open>
  The envelope in the words of the specification: the fixed-size header, which declares
  the length of the body, followed by the body.
\<close>

definition envelope :: "wire \<Rightarrow> ControllerDataFrame \<Rightarrow> byte list" where
  "envelope w f = encode_header (HEADER_SIZE w) (ByteSize f) @ frame_bytes f"

text \<open>Connections and servers used as concrete inputs.\<close>

definition stopped_connection :: ClientConnection where
  "stopped_connection = (new_ClientConnection example_wire 0)\<lparr> m_connection_stopped := True \<rparr>"

definition unbound_connection :: ClientConnection where
  "unbound_connection =
     add_controller_data_frame_to_write_queue small_frame (new_ClientConnection example_wire 0)"

definition example_run :: "event list \<Rightarrow> ServerNetworkManagerImpl" where
  "example_run es =
     (case exec example_wire es (startup example_wire) of
        Some s \<Rightarrow> s
      | None \<Rightarrow> startup example_wire)"

text \<open>
  A server whose first client has a data frame queued and no write pending, and an
  \<open>io_service.poll()\<close> in which a telemetry producer enqueues one more frame before
  the handler of the write in flight runs: after it a frame is ready again.
\<close>

definition busy_server :: ServerNetworkManagerImpl where
  "busy_server =
     example_run [Accept_complete 0 True,
                  Call_send_controller_data_frame 0 small_frame,
                  Call_send_controller_data_frame 0 small_frame,
                  Write_data_frame_complete 0 True True]"

definition busy_io :: "nat \<Rightarrow> ServerNetworkManagerImpl \<Rightarrow> ServerNetworkManagerImpl outcome" where
  "busy_io i s =
     and_then (step example_wire (Call_send_controller_data_frame 0 small_frame) s)
       (step example_wire (Write_data_frame_complete 0 True True))"

text \<open>Two registered connections; the second one has a data frame queued.\<close>

definition two_clients :: ServerNetworkManagerImpl where
  "two_clients =
     \<lparr> next_connection_id = 2,
       objects = [(0, new_ClientConnection example_wire 0),
                  (1, (new_ClientConnection example_wire 1)\<lparr> m_pending_dataframes := [small_frame] \<rparr>)],
       connections = [(0, 0), (1, 1)],
       udp_connecting_remote_endpoint = default_endpoint,
       m_udp_connection_id_read_buffer = 0,
       m_udp_connection_result_write_buffer = False,
       io_outstanding = [],
       responses = (\<lambda>_. default_Response) \<rparr>"

text \<open>The telemetry operations that do not complete a write.\<close>

fun is_telemetry_attempt :: "conn_event \<Rightarrow> bool" where
  "is_telemetry_attempt (Enqueue_data_frame _) = True"
| "is_telemetry_attempt Start_data_frame_write = True"
| "is_telemetry_attempt _ = False"

text \<open>Counting the outstanding operations of the datagram socket.\<close>

definition receives_outstanding :: "ServerNetworkManagerImpl \<Rightarrow> nat" where
  "receives_outstanding s = length (filter is_receive_connection_id (io_outstanding s))"

definition replies_outstanding :: "ServerNetworkManagerImpl \<Rightarrow> nat" where
  "replies_outstanding s = length (filter is_send_connection_result (io_outstanding s))"

definition udp_writes_outstanding :: "ServerNetworkManagerImpl \<Rightarrow> async_op list" where
  "udp_writes_outstanding s = filter is_udp_write (io_outstanding s)"

fun is_rendezvous_op :: "async_op \<Rightarrow> bool" where
  "is_rendezvous_op UdpAsyncReceiveConnectionId = True"
| "is_rendezvous_op UdpReceivedConnectionId = True"
| "is_rendezvous_op (UdpAsyncSendConnectionResult _ _) = True"
| "is_rendezvous_op _ = False"

definition rendezvous_ops :: "async_op list \<Rightarrow> nat" where
  "rendezvous_ops ops = length (filter is_rendezvous_op ops)"

text \<open>A rendezvous receive that completes with an error.\<close>

fun is_failed_receive :: "event \<Rightarrow> bool" where
  "is_failed_receive (Receive_connection_id_complete ok) = (\<not> ok)"
| "is_failed_receive _ = False"

text \<open>
  \<open>ends_in r s\<close>: the call ends, by return or by exception, in state \<open>s\<close>.
  \<open>unarmed s\<close>: the connections created minus the rendezvous operations outstanding.
  \<open>quiet f\<close>: the member function \<open>f\<close> initiates no rendezvous operation.
\<close>

definition ends_in :: "'a outcome \<Rightarrow> 'a \<Rightarrow> bool" where
  "ends_in r s = (r = Return s \<or> r = Throw s)"

definition unarmed :: "ServerNetworkManagerImpl \<Rightarrow> int" where
  "unarmed s = next_connection_id s - int (rendezvous_ops (io_outstanding s))"

definition quiet :: "(ClientConnection \<Rightarrow> (ClientConnection \<times> async_op list) outcome) \<Rightarrow> bool" where
  "quiet f = (\<forall>c c' ops. ends_in (f c) (c', ops) \<longrightarrow> rendezvous_ops ops = 0)"

text \<open>
  \<open>write_in_progress w c\<close> is what \<open>start_udp_write_queued_controller_data_frame\<close>
  answers on the connection \<open>c\<close>; the scan of the registry goes on to the next
  entry when the answer is \<open>false\<close>, and \<open>passed_over w s p\<close> says so for the
  object \<open>p\<close> points to. In \<open>registry_points_to_objects\<close> every pointer in the
  registry points to an object, as a shared pointer does.
\<close>

definition write_in_progress :: "wire \<Rightarrow> ClientConnection \<Rightarrow> bool" where
  "write_in_progress w c = fst (start_udp_write_queued_controller_data_frame w c)"

definition passed_over :: "wire \<Rightarrow> ServerNetworkManagerImpl \<Rightarrow> ClientConnectionPtr \<Rightarrow> bool" where
  "passed_over w s p = (map_option (write_in_progress w) (map_of (objects s) p) = Some False)"

definition registry_points_to_objects :: "ServerNetworkManagerImpl \<Rightarrow> bool" where
  "registry_points_to_objects s = (\<forall>(k, p)\<in>set (connections s). map_of (objects s) p \<noteq> None)"

text \<open>
  The queue and write operations of a connection, and the items that a sequence of
  events enqueues on each queue.
\<close>

fun is_queue_or_write_operation :: "conn_event \<Rightarrow> bool" where
  "is_queue_or_write_operation (Enqueue_response _) = True"
| "is_queue_or_write_operation Start_response_write = True"
| "is_queue_or_write_operation (Response_write_complete _ _) = True"
| "is_queue_or_write_operation (Enqueue_data_frame _) = True"
| "is_queue_or_write_operation Start_data_frame_write = True"
| "is_queue_or_write_operation (Data_frame_write_complete _ _) = True"
| "is_queue_or_write_operation _ = False"

fun enqueued_responses :: "conn_event list \<Rightarrow> ResponsePtr list" where
  "enqueued_responses [] = []"
| "enqueued_responses (Enqueue_response r # es) = r # enqueued_responses es"
| "enqueued_responses (_ # es) = enqueued_responses es"

fun enqueued_data_frames :: "conn_event list \<Rightarrow> ControllerDataFrame list" where
  "enqueued_data_frames [] = []"
| "enqueued_data_frames (Enqueue_data_frame f # es) = f # enqueued_data_frames es"
| "enqueued_data_frames (_ # es) = enqueued_data_frames es"

text \<open>
  A connection with a response write outstanding, and the same connection after
  \<open>stop()\<close>.
\<close>

definition writing_run :: conn_run where
  "writing_run =
     (case conn_exec example_wire [Enqueue_response (HostPtr 0), Start_response_write]
             (conn_init example_wire 0) of
        Some t \<Rightarrow> t
      | None \<Rightarrow> conn_init example_wire 0)"

definition stopped_run :: conn_run where
  "stopped_run =
     (case conn_step example_wire (Stop True) writing_run of
        Some t \<Rightarrow> t
      | None \<Rightarrow> writing_run)"

text \<open>
  The correlation identifiers of the responses in the queue of connection \<open>p\<close>, read
  through the queued pointers.
\<close>

definition queued_request_ids :: "ServerNetworkManagerImpl \<Rightarrow> ClientConnectionPtr \<Rightarrow> int list" where
  "queued_request_ids s p =
     (case map_of (objects s) p of
        None \<Rightarrow> []
      | Some c \<Rightarrow> map (\<lambda>r. request_id (responses s r)) (m_pending_responses c))"

text \<open>
  A server whose first client has sent a request of one byte, which the request handler
  has answered with the response object \<open>HostPtr 0\<close>, correlation identifier 7; the
  answer is queued behind the connection info, whose write is outstanding.
\<close>

definition answering_server :: ServerNetworkManagerImpl where
  "answering_server =
     example_run [Accept_complete 0 True,
                  Host_writes_response 0 example_response,
                  Read_header_complete 0 True [0, 0, 0, 1],
                  Read_body_complete 0 True [3] (Some 0)]"




section \<open>Evaluation on concrete inputs\<close>

lemma length_encode_header [simp]: "length (encode_header hs n) = hs"
  by (simp add: encode_header_def)

lemma replicate_numeral: "replicate (numeral k) x = x # replicate (pred_numeral k) x"
  by (simp add: numeral_eq_Suc)

lemmas example_defs = example_wire_def small_frame_def example_response_def
  example_sender_def default_endpoint_def default_Response_def

lemmas conn_defs = new_ClientConnection_def start_def send_connection_info_def
  add_tcp_response_to_write_queue_def start_tcp_write_queued_response_def
  start_tcp_read_request_header_def pack_vector_def resize_def dataframe_buffer_size_def
  add_controller_data_frame_to_write_queue_def start_udp_write_queued_controller_data_frame_def
  pack_buffer_def ByteSize_def bind_udp_remote_endpoint_def encode_header_def stop_def
  handle_write_response_complete_def handle_udp_write_controller_data_frame_complete_def
  has_pending_udp_write_def has_queued_controller_data_frames_def
  handle_tcp_read_request_header_def start_read_body_def decode_header_def
  handle_request_def handle_read_body_def
  conn_init_def finish_handler_def upt_rec replicate_numeral Let_def

lemmas server_defs = startup_def start_tcp_accept_def new_ServerNetworkManagerImpl_def
  start_udp_receive_connection_id_def complete_def handle_tcp_accept_def and_then_def
  call_on_def handle_udp_read_connection_id_def start_udp_send_connection_result_def
  send_controller_data_frame_def start_udp_queued_data_frame_write_def
  handle_udp_write_connection_result_def has_queued_controller_data_frames_ready_to_start_def
  complete_shared_def destroy_unreferenced_def referenced_def example_run_def

section \<open>Lemmas on runs of one connection\<close>

lemma written_responses_append [simp]:
  "written_responses (xs @ ys) = written_responses xs @ written_responses ys"
  by (induction xs rule: written_responses.induct) auto

lemma written_data_frames_append [simp]:
  "written_data_frames (xs @ ys) = written_data_frames xs @ written_data_frames ys"
  by (induction xs rule: written_data_frames.induct) auto

lemma length_filter_response_write:
  "length (filter is_response_write xs) = length (written_responses xs)"
  by (induction xs rule: written_responses.induct) auto

lemma length_filter_data_frame_write:
  "length (filter is_data_frame_write xs) = length (written_data_frames xs)"
  by (induction xs rule: written_data_frames.induct) auto

lemma take_first_response_write:
  "take_first is_response_write xs = Some (op, rest) \<Longrightarrow>
     (\<exists>i r b. op = TcpAsyncWrite i r b \<and> written_responses xs = r # written_responses rest)
     \<and> written_data_frames rest = written_data_frames xs"
proof (induction xs arbitrary: rest)
  case Nil
  then show ?case by simp
next
  case (Cons x xs)
  then show ?case
    by (cases x) (auto split: option.splits if_splits)
qed

lemma take_first_data_frame_write:
  "take_first is_data_frame_write xs = Some (op, rest) \<Longrightarrow>
     (\<exists>i f b e. op = UdpAsyncSendDataFrame i f b e \<and> written_data_frames xs = f # written_data_frames rest)
     \<and> written_responses rest = written_responses xs"
proof (induction xs arbitrary: rest)
  case Nil
  then show ?case by simp
next
  case (Cons x xs)
  then show ?case
    by (cases x) (auto split: option.splits if_splits)
qed

lemma conn_inv_init: "conn_inv (conn_init w n)"
  by (simp add: conn_inv_def conn_init_def new_ClientConnection_def)

lemma inv_enqueue_response:
  "conn_inv t \<Longrightarrow> \<exists>t'. conn_step w (Enqueue_response r) t = Some t' \<and> conn_inv t' \<and> outstanding t' = outstanding t"
  by (auto simp: conn_inv_def Let_def add_tcp_response_to_write_queue_def prefix_def)

lemma inv_write_payload:
  "conn_inv t \<Longrightarrow> \<exists>t'. conn_step w (Write_payload r v) t = Some t' \<and> conn_inv t'"
  by (auto simp: conn_inv_def Let_def)

lemma inv_enqueue_data_frame:
  "conn_inv t \<Longrightarrow> \<exists>t'. conn_step w (Enqueue_data_frame f) t = Some t' \<and> conn_inv t' \<and> outstanding t' = outstanding t"
  by (auto simp: conn_inv_def Let_def add_controller_data_frame_to_write_queue_def prefix_def)

lemma inv_start_response_write:
  "conn_inv t \<Longrightarrow> \<exists>t'. conn_step w Start_response_write t = Some t' \<and> conn_inv t'"
  by (auto simp: conn_inv_def Let_def start_tcp_write_queued_response_def split: list.splits)

lemma inv_start_data_frame_write:
  "conn_inv t \<Longrightarrow> \<exists>t'. conn_step w Start_data_frame_write t = Some t' \<and> conn_inv t'"
  by (auto simp: conn_inv_def Let_def start_udp_write_queued_controller_data_frame_def split: list.splits option.splits)

lemma inv_stop:
  "conn_inv t \<Longrightarrow> \<exists>t'. conn_step w (Stop b) t = Some t' \<and> conn_inv t'"
  by (auto simp: conn_inv_def Let_def stop_def)

lemma inv_bind:
  "conn_inv t \<Longrightarrow> \<exists>t'. conn_step w (Bind_udp_remote_endpoint e) t = Some t' \<and> conn_inv t'"
  by (auto simp: conn_inv_def Let_def bind_udp_remote_endpoint_def)

lemma inv_response_write_complete:
  assumes "conn_inv t"
  shows "\<exists>t'. conn_step w (Response_write_complete ok sd) t = Some t' \<and> conn_inv t'"
proof (cases "take_first is_response_write (outstanding t)")
  case None
  with assms show ?thesis by simp
next
  case (Some p)
  obtain op rest where p: "p = (op, rest)" by (cases p)
  from Some p take_first_response_write [of "outstanding t" op rest]
  obtain i r b where op: "op = TcpAsyncWrite i r b"
    and wr: "written_responses (outstanding t) = r # written_responses rest"
    and wf: "written_data_frames rest = written_data_frames (outstanding t)"
    by auto
  from assms wr have rest: "written_responses rest = []"
    by (simp add: conn_inv_def Let_def)
  show ?thesis
    using assms Some p op wr wf rest
    by (auto simp: conn_inv_def Let_def finish_handler_def handle_write_response_complete_def
          start_tcp_write_queued_response_def stop_def prefix_def
          split: list.splits)
qed

lemma inv_data_frame_write_complete:
  assumes "conn_inv t"
  shows "\<exists>t'. conn_step w (Data_frame_write_complete ok sd) t = Some t' \<and> conn_inv t'"
proof (cases "take_first is_data_frame_write (outstanding t)")
  case None
  with assms show ?thesis by simp
next
  case (Some p)
  obtain op rest where p: "p = (op, rest)" by (cases p)
  from Some p take_first_data_frame_write [of "outstanding t" op rest]
  obtain i f b e where op: "op = UdpAsyncSendDataFrame i f b e"
    and wf: "written_data_frames (outstanding t) = f # written_data_frames rest"
    and wr: "written_responses rest = written_responses (outstanding t)"
    by auto
  from assms wf have rest: "written_data_frames rest = []"
    by (simp add: conn_inv_def Let_def)
  show ?thesis
    using assms Some p op wr wf rest
    by (auto simp: conn_inv_def Let_def finish_handler_def
          handle_udp_write_controller_data_frame_complete_def stop_def prefix_def
          split: list.splits)
qed

lemma conn_step_inv:
  "conn_inv t \<Longrightarrow> \<exists>t'. conn_step w e t = Some t' \<and> conn_inv t'"
proof (cases e)
  case (Enqueue_response r)
  assume "conn_inv t"
  with Enqueue_response inv_enqueue_response [of t w r] show ?thesis by blast
next
  case (Write_payload r v)
  assume "conn_inv t"
  with Write_payload inv_write_payload [of t w r v] show ?thesis by blast
next
  case Start_response_write
  assume "conn_inv t"
  with Start_response_write inv_start_response_write [of t w] show ?thesis by blast
next
  case (Response_write_complete ok sd)
  assume "conn_inv t"
  with Response_write_complete inv_response_write_complete [of t w ok sd] show ?thesis by blast
next
  case (Enqueue_data_frame f)
  assume "conn_inv t"
  with Enqueue_data_frame inv_enqueue_data_frame [of t w f] show ?thesis by blast
next
  case Start_data_frame_write
  assume "conn_inv t"
  with Start_data_frame_write inv_start_data_frame_write [of t w] show ?thesis by blast
next
  case (Data_frame_write_complete ok sd)
  assume "conn_inv t"
  with Data_frame_write_complete inv_data_frame_write_complete [of t w ok sd] show ?thesis by blast
next
  case (Stop b)
  assume "conn_inv t"
  with Stop inv_stop [of t w b] show ?thesis by blast
next
  case (Bind_udp_remote_endpoint e)
  assume "conn_inv t"
  with Bind_udp_remote_endpoint inv_bind [of t w e] show ?thesis by blast
qed

lemma conn_exec_inv:
  "conn_inv t \<Longrightarrow> \<exists>t'. conn_exec w es t = Some t' \<and> conn_inv t'"
proof (induction es arbitrary: t)
  case Nil
  then show ?case by simp
next
  case (Cons e es)
  from Cons.prems conn_step_inv [of t w e]
  obtain t1 where t1: "conn_step w e t = Some t1" "conn_inv t1" by blast
  from Cons.IH [OF t1(2)] t1(1) show ?case by simp
qed

section \<open>C1: first in, first out, one write at a time\<close>

text \<open>
  C1. For every connection and every sequence of enqueue, start-write, write-completion,
  stop and bind events on it and of writes to the response objects, starting from the
  constructed connection: the run has no
  undefined behaviour; at most one response write and at most one data frame write are
  outstanding; the responses (data frames) whose writes completed without error are, in
  the order of completion, the first responses (data frames) that were enqueued; and an
  enqueue on either queue leaves the outstanding operations as they are, so it initiates
  no write. As the sequence is arbitrary, this holds at every point of a run.
\<close>

theorem queue_fifo_single_write:
  "\<exists>t. conn_exec w es (conn_init w n) = Some t
     \<and> length (filter is_response_write (outstanding t)) \<le> 1
     \<and> length (filter is_data_frame_write (outstanding t)) \<le> 1
     \<and> prefix (written_responses (completed t)) (responses_enqueued t)
     \<and> prefix (written_data_frames (completed t)) (data_frames_enqueued t)
     \<and> (\<forall>r. \<exists>t'. conn_step w (Enqueue_response r) t = Some t' \<and> outstanding t' = outstanding t)
     \<and> (\<forall>f. \<exists>t'. conn_step w (Enqueue_data_frame f) t = Some t' \<and> outstanding t' = outstanding t)"
proof -
  from conn_exec_inv [OF conn_inv_init]
  obtain t where t: "conn_exec w es (conn_init w n) = Some t" "conn_inv t" by blast
  from t(2) have a: "length (filter is_response_write (outstanding t)) \<le> 1"
    by (simp add: conn_inv_def Let_def length_filter_response_write)
  from t(2) have b: "length (filter is_data_frame_write (outstanding t)) \<le> 1"
    by (simp add: conn_inv_def Let_def length_filter_data_frame_write)
  from t(2) have "prefix (written_responses (completed t) @ written_responses (outstanding t)) (responses_enqueued t)"
    by (simp add: conn_inv_def Let_def)
  then have c: "prefix (written_responses (completed t)) (responses_enqueued t)"
    by (rule append_prefixD)
  from t(2) have "prefix (written_data_frames (completed t) @ written_data_frames (outstanding t)) (data_frames_enqueued t)"
    by (simp add: conn_inv_def Let_def)
  then have d: "prefix (written_data_frames (completed t)) (data_frames_enqueued t)"
    by (rule append_prefixD)
  have e: "\<forall>r. \<exists>t'. conn_step w (Enqueue_response r) t = Some t' \<and> outstanding t' = outstanding t"
    by simp
  have f: "\<forall>f. \<exists>t'. conn_step w (Enqueue_data_frame f) t = Some t' \<and> outstanding t' = outstanding t"
    by simp
  from t(1) a b c d e f show ?thesis by blast
qed

text \<open>
  A run in which writes complete: two responses and a data frame are enqueued and
  written, in the order in which they were enqueued.
\<close>

theorem queue_fifo_single_write_witness:
  "\<exists>t. conn_exec example_wire
          [Write_payload (HostPtr 0) example_response,
           Enqueue_response (HostPtr 0), Enqueue_data_frame small_frame,
           Enqueue_response (HostPtr 1),
           Start_response_write, Start_data_frame_write, Response_write_complete True True,
           Data_frame_write_complete True True, Response_write_complete True True]
          (conn_init example_wire 0) = Some t
     \<and> written_responses (completed t) = [HostPtr 0, HostPtr 1]
     \<and> responses_enqueued t = [HostPtr 0, HostPtr 1]
     \<and> written_data_frames (completed t) = [small_frame]
     \<and> data_frames_enqueued t = [small_frame]
     \<and> length (filter is_response_write (outstanding t)) \<le> 1
     \<and> length (filter is_data_frame_write (outstanding t)) \<le> 1
     \<and> prefix (written_responses (completed t)) (responses_enqueued t)
     \<and> prefix (written_data_frames (completed t)) (data_frames_enqueued t)"
proof -
  let ?es = "[Write_payload (HostPtr 0) example_response,
           Enqueue_response (HostPtr 0), Enqueue_data_frame small_frame,
           Enqueue_response (HostPtr 1),
           Start_response_write, Start_data_frame_write, Response_write_complete True True,
           Data_frame_write_complete True True, Response_write_complete True True]"
  from queue_fifo_single_write [of example_wire ?es 0]
  obtain t where t: "conn_exec example_wire ?es (conn_init example_wire 0) = Some t"
    and p: "length (filter is_response_write (outstanding t)) \<le> 1"
      "length (filter is_data_frame_write (outstanding t)) \<le> 1"
      "prefix (written_responses (completed t)) (responses_enqueued t)"
      "prefix (written_data_frames (completed t)) (data_frames_enqueued t)"
    by blast
  from t have v: "written_responses (completed t) = [HostPtr 0, HostPtr 1]"
     "responses_enqueued t = [HostPtr 0, HostPtr 1]"
     "written_data_frames (completed t) = [small_frame]"
     "data_frames_enqueued t = [small_frame]"
    by (auto simp: conn_defs example_defs)
  from t v p show ?thesis by blast
qed

section \<open>C3: a frame too large for the transmit buffer\<close>

text \<open>
  On a connection that is not stopped and has no data frame write pending, an attempt
  to start a write with a head frame that does not fit the buffer initiates nothing and
  leaves the queue as it is: the frame is not removed.
\<close>

lemma oversize_frame_stays_at_head:
  assumes "\<not> m_connection_stopped c" and "\<not> m_has_pending_udp_write c"
    and "m_pending_dataframes c = f # fs"
    and "HEADER_SIZE w + ByteSize f > dataframe_buffer_size w"
  shows "start_udp_write_queued_controller_data_frame w c
           = (False, c\<lparr> m_packed_dataframe := Some f \<rparr>, [])"
  using assms
  by (simp add: start_udp_write_queued_controller_data_frame_def pack_buffer_def)

text \<open>
  So it is for every sequence of further enqueues and attempts: the frame stays at the
  head and no write is ever initiated.
\<close>

lemma oversize_head_blocks_every_attempt:
  assumes "\<not> m_connection_stopped (conn t)" and "\<not> m_has_pending_udp_write (conn t)"
    and "m_pending_dataframes (conn t) = f # fs"
    and "HEADER_SIZE w + ByteSize f > dataframe_buffer_size w"
    and "\<forall>e\<in>set es. is_telemetry_attempt e"
  shows "\<exists>t' fs'. conn_exec w es t = Some t' \<and> outstanding t' = outstanding t
           \<and> m_pending_dataframes (conn t') = f # fs'"
  using assms
proof (induction es arbitrary: t fs)
  case Nil
  then show ?case by simp
next
  case (Cons e es)
  from Cons.prems(5) have e: "is_telemetry_attempt e" and es: "\<forall>e\<in>set es. is_telemetry_attempt e"
    by simp_all
  from e Cons.prems(1-4)
  obtain t1 fs1 where t1: "conn_step w e t = Some t1" "outstanding t1 = outstanding t"
      "\<not> m_connection_stopped (conn t1)" "\<not> m_has_pending_udp_write (conn t1)"
      "m_pending_dataframes (conn t1) = f # fs1"
    by (cases e)
      (auto simp: add_controller_data_frame_to_write_queue_def
         start_udp_write_queued_controller_data_frame_def pack_buffer_def)
  from Cons.IH [OF t1(3) t1(4) t1(5) Cons.prems(4) es] t1(1,2) show ?case by auto
qed

text \<open>
  C3. The claim: a head frame too large for the buffer is dropped by the attempt to
  start a write, and later frames can still be transmitted. The code at the failing
  input, a buffer of 4 + 8 bytes and a queue of a frame of 9 bytes followed by a frame of
  2 bytes: after two attempts to start a write the queue still holds both frames, the
  large one at the head, and no write has been initiated. The small frame is never sent.
\<close>

theorem oversize_frame_blocks_queue:
  "map_option (m_pending_dataframes \<circ> conn)
     (conn_exec example_wire
        [Enqueue_data_frame big_frame, Enqueue_data_frame small_frame,
         Start_data_frame_write, Start_data_frame_write]
        (conn_init example_wire 0))
     = Some [big_frame, small_frame]
   \<and> map_option outstanding
     (conn_exec example_wire
        [Enqueue_data_frame big_frame, Enqueue_data_frame small_frame,
         Start_data_frame_write, Start_data_frame_write]
        (conn_init example_wire 0))
     = Some []"
  by (simp add: conn_defs example_defs big_frame_def)

section \<open>C4: operations on a stopped connection\<close>

text \<open>
  C4, as stated, fails: after \<open>stop()\<close> the enqueue of a response still appends to the
  queue. Here \<open>stop()\<close> is called on a new connection and a response is enqueued
  afterwards; the queue changes from empty to one item.
\<close>

theorem enqueue_after_stop_counterexample:
  "stop True (new_ClientConnection example_wire 0) = Return stopped_connection
   \<and> m_pending_responses stopped_connection = []
   \<and> m_pending_responses (add_tcp_response_to_write_queue (HostPtr 0) stopped_connection)
       = [HostPtr 0]"
  by (simp add: conn_defs stopped_connection_def)

lemma take_first_subseq:
  "take_first P xs = Some (x, rest) \<Longrightarrow> subseq rest xs"
proof (induction xs arbitrary: x rest)
  case Nil
  then show ?case by simp
next
  case (Cons y ys)
  show ?case
  proof (cases "P y")
    case True
    with Cons.prems have "rest = ys" by simp
    then show ?thesis by (auto intro!: list_emb_Cons)
  next
    case False
    with Cons.prems obtain ys' where "take_first P ys = Some (x, ys')" and "rest = y # ys'"
      by (auto split: option.splits)
    with Cons.IH [of x ys'] show ?thesis by simp
  qed
qed

lemma stopped_step:
  assumes "m_connection_stopped (conn t)" and "is_queue_or_write_operation e"
  shows "\<exists>t'. conn_step w e t = Some t'
           \<and> conn t' = (conn t)\<lparr> m_pending_responses :=
                                   m_pending_responses (conn t) @ enqueued_responses [e],
                                 m_pending_dataframes :=
                                   m_pending_dataframes (conn t) @ enqueued_data_frames [e] \<rparr>
           \<and> subseq (outstanding t') (outstanding t)"
proof (cases e)
  case (Enqueue_response r)
  then show ?thesis by (simp add: add_tcp_response_to_write_queue_def)
next
  case (Write_payload r v)
  with assms(2) show ?thesis by simp
next
  case Start_response_write
  with assms(1) show ?thesis by (simp add: start_tcp_write_queued_response_def)
next
  case (Response_write_complete ok sd)
  show ?thesis
  proof (cases "take_first is_response_write (outstanding t)")
    case None
    with Response_write_complete show ?thesis by simp
  next
    case (Some a)
    obtain op rest where a: "a = (op, rest)" by (cases a)
    from Some a have "subseq rest (outstanding t)" by (simp add: take_first_subseq)
    with Response_write_complete Some a assms(1) show ?thesis
      by (simp add: handle_write_response_complete_def finish_handler_def)
  qed
next
  case (Enqueue_data_frame f)
  then show ?thesis by (simp add: add_controller_data_frame_to_write_queue_def)
next
  case Start_data_frame_write
  with assms(1) show ?thesis by (simp add: start_udp_write_queued_controller_data_frame_def)
next
  case (Data_frame_write_complete ok sd)
  show ?thesis
  proof (cases "take_first is_data_frame_write (outstanding t)")
    case None
    with Data_frame_write_complete show ?thesis by simp
  next
    case (Some a)
    obtain op rest where a: "a = (op, rest)" by (cases a)
    from Some a have "subseq rest (outstanding t)" by (simp add: take_first_subseq)
    with Data_frame_write_complete Some a assms(1) show ?thesis
      by (simp add: handle_udp_write_controller_data_frame_complete_def finish_handler_def)
  qed
next
  case (Stop b)
  with assms(2) show ?thesis by simp
next
  case (Bind_udp_remote_endpoint ep)
  with assms(2) show ?thesis by simp
qed

lemma enqueued_responses_Cons:
  "enqueued_responses (e # es) = enqueued_responses [e] @ enqueued_responses es"
  by (cases e) simp_all

lemma enqueued_data_frames_Cons:
  "enqueued_data_frames (e # es) = enqueued_data_frames [e] @ enqueued_data_frames es"
  by (cases e) simp_all

lemma stopped_run_of_operations:
  assumes "m_connection_stopped (conn t)" and "\<forall>e\<in>set es. is_queue_or_write_operation e"
  shows "\<exists>t'. conn_exec w es t = Some t'
           \<and> conn t' = (conn t)\<lparr> m_pending_responses :=
                                   m_pending_responses (conn t) @ enqueued_responses es,
                                 m_pending_dataframes :=
                                   m_pending_dataframes (conn t) @ enqueued_data_frames es \<rparr>
           \<and> subseq (outstanding t') (outstanding t)"
  using assms
proof (induction es arbitrary: t)
  case Nil
  then show ?case by simp
next
  case (Cons e es)
  from Cons.prems(2) have e: "is_queue_or_write_operation e"
    and es: "\<forall>e\<in>set es. is_queue_or_write_operation e" by simp_all
  from stopped_step [OF Cons.prems(1) e, of w]
  obtain t1 where t1: "conn_step w e t = Some t1"
    and c1: "conn t1 = (conn t)\<lparr> m_pending_responses :=
                                   m_pending_responses (conn t) @ enqueued_responses [e],
                                 m_pending_dataframes :=
                                   m_pending_dataframes (conn t) @ enqueued_data_frames [e] \<rparr>"
    and o1: "subseq (outstanding t1) (outstanding t)"
    by blast
  from c1 Cons.prems(1) have s1: "m_connection_stopped (conn t1)" by simp
  from Cons.IH [OF s1 es]
  obtain t2 where t2: "conn_exec w es t1 = Some t2"
    and c2: "conn t2 = (conn t1)\<lparr> m_pending_responses :=
                                   m_pending_responses (conn t1) @ enqueued_responses es,
                                 m_pending_dataframes :=
                                   m_pending_dataframes (conn t1) @ enqueued_data_frames es \<rparr>"
    and o2: "subseq (outstanding t2) (outstanding t1)"
    by blast
  from t1 t2 have a: "conn_exec w (e # es) t = Some t2" by simp
  from c1 c2 have b: "conn t2 = (conn t)\<lparr> m_pending_responses :=
                                   m_pending_responses (conn t) @ enqueued_responses (e # es),
                                 m_pending_dataframes :=
                                   m_pending_dataframes (conn t) @ enqueued_data_frames (e # es) \<rparr>"
    by (simp add: enqueued_responses_Cons [of e es] enqueued_data_frames_Cons [of e es])
  from o2 o1 have c: "subseq (outstanding t2) (outstanding t)" by (rule subseq_order.trans)
  from a b c show ?case by blast
qed

text \<open>
  C4, amended. For every connection on which \<open>stop()\<close> has returned and every sequence
  of queue and write operations that follows on it (enqueues on either queue, attempts to
  start a write on either channel, write-completion callbacks of either channel): the
  run has no undefined behaviour, no operation is initiated (the operations outstanding
  afterwards are among those outstanding before), and the connection afterwards is the
  connection \<open>stop()\<close> has left with the enqueued items appended to its two queues, in
  the order of the calls, and nothing else changed. So the attempts to start a write and
  the completion callbacks are no-ops, and the two enqueue operations are not. The
  sequence holds no call of \<open>start()\<close>, and the connection object exists throughout.
\<close>

theorem stopped_connection_operations:
  assumes "stop shutdown_ok c = Return (conn t)"
    and "\<forall>e\<in>set es. is_queue_or_write_operation e"
  shows "\<exists>t'. conn_exec w es t = Some t'
           \<and> conn t' = (conn t)\<lparr> m_pending_responses :=
                                   m_pending_responses (conn t) @ enqueued_responses es,
                                 m_pending_dataframes :=
                                   m_pending_dataframes (conn t) @ enqueued_data_frames es \<rparr>
           \<and> subseq (outstanding t') (outstanding t)"
proof -
  have "\<And>c'. stop shutdown_ok c = Return c' \<Longrightarrow> m_connection_stopped c'"
    by (auto simp: stop_def split: if_splits)
  from this [OF assms(1)] have "m_connection_stopped (conn t)" .
  from stopped_run_of_operations [OF this assms(2)] show ?thesis .
qed

text \<open>
  A connection is stopped while its first response is being written. Afterwards a
  second response and a data frame are enqueued, a write is attempted on either channel
  and the outstanding write completes: the two items are in the queues, behind the
  response whose write was outstanding, and nothing is outstanding.
\<close>

theorem stopped_connection_operations_witness:
  "\<exists>t'. stop True (conn writing_run) = Return (conn stopped_run)
     \<and> (\<forall>e\<in>set [Enqueue_response (HostPtr 1), Start_response_write,
                   Enqueue_data_frame small_frame, Start_data_frame_write,
                   Response_write_complete True True, Data_frame_write_complete True True].
           is_queue_or_write_operation e)
     \<and> outstanding stopped_run = [TcpAsyncWrite 0 (HostPtr 0) [0, 0, 0, 0]]
     \<and> conn_exec example_wire
           [Enqueue_response (HostPtr 1), Start_response_write,
            Enqueue_data_frame small_frame, Start_data_frame_write,
            Response_write_complete True True, Data_frame_write_complete True True]
           stopped_run = Some t'
     \<and> m_pending_responses (conn t') = [HostPtr 0, HostPtr 1]
     \<and> m_pending_dataframes (conn t') = [small_frame]
     \<and> m_connection_stopped (conn t')
     \<and> \<not> m_has_pending_tcp_write (conn t')
     \<and> subseq (outstanding t') (outstanding stopped_run)"
proof -
  let ?es = "[Enqueue_response (HostPtr 1), Start_response_write,
                Enqueue_data_frame small_frame, Start_data_frame_write,
                Response_write_complete True True, Data_frame_write_complete True True]"
  have a: "stop True (conn writing_run) = Return (conn stopped_run)"
    by (simp add: stopped_run_def writing_run_def conn_defs example_defs)
  have b: "\<forall>e\<in>set ?es. is_queue_or_write_operation e" by simp
  have o: "outstanding stopped_run = [TcpAsyncWrite 0 (HostPtr 0) [0, 0, 0, 0]]"
    by (simp add: stopped_run_def writing_run_def conn_defs example_defs)
  have q: "m_pending_responses (conn stopped_run) = [HostPtr 0]"
      "m_pending_dataframes (conn stopped_run) = []"
      "m_connection_stopped (conn stopped_run)"
      "\<not> m_has_pending_tcp_write (conn stopped_run)"
    by (simp_all add: stopped_run_def writing_run_def conn_defs example_defs)
  from stopped_connection_operations [OF a b, of example_wire]
  obtain t' where t: "conn_exec example_wire ?es stopped_run = Some t'"
    and c: "conn t' = (conn stopped_run)\<lparr> m_pending_responses :=
                          m_pending_responses (conn stopped_run) @ enqueued_responses ?es,
                        m_pending_dataframes :=
                          m_pending_dataframes (conn stopped_run) @ enqueued_data_frames ?es \<rparr>"
    and s: "subseq (outstanding t') (outstanding stopped_run)"
    by blast
  from c q have r: "m_pending_responses (conn t') = [HostPtr 0, HostPtr 1]"
      "m_pending_dataframes (conn t') = [small_frame]"
      "m_connection_stopped (conn t')"
      "\<not> m_has_pending_tcp_write (conn t')"
    by simp_all
  from a b o t r s
  have "stop True (conn writing_run) = Return (conn stopped_run)
     \<and> (\<forall>e\<in>set ?es. is_queue_or_write_operation e)
     \<and> outstanding stopped_run = [TcpAsyncWrite 0 (HostPtr 0) [0, 0, 0, 0]]
     \<and> conn_exec example_wire ?es stopped_run = Some t'
     \<and> m_pending_responses (conn t') = [HostPtr 0, HostPtr 1]
     \<and> m_pending_dataframes (conn t') = [small_frame]
     \<and> m_connection_stopped (conn t')
     \<and> \<not> m_has_pending_tcp_write (conn t')
     \<and> subseq (outstanding t') (outstanding stopped_run)"
    by (intro conjI)
  then show ?thesis by (rule exI)
qed

text \<open>
  The two limits of the amended claim. \<open>start()\<close> ends the stopped state: here
  connection 0 is stopped by a failed write before its accept completes, a second
  notification is enqueued on the stopped connection, and the accept handler calls
  \<open>start()\<close>; the notification enqueued after \<open>stop()\<close> is then written.
\<close>

lemma start_transmits_item_enqueued_after_stop:
  "map_option io_outstanding
     (exec example_wire
        [Call_send_notification 0 0, Write_response_complete 0 False True,
         Call_send_notification 0 1, Accept_complete 0 True,
         Write_response_complete 0 True True]
        (startup example_wire))
   = Some [UdpAsyncReceiveConnectionId, TcpAsyncReadHeader 0, TcpAsyncAccept 1,
           UdpAsyncReceiveConnectionId, TcpAsyncWrite 0 (HostPtr 1) [0, 0, 0, 0]]"
  by (simp add: server_defs conn_defs example_defs send_notification_def)

text \<open>
  And the object can be destroyed while a write is outstanding, as the handler of a
  write holds no shared pointer: after \<open>close_all_connections\<close> and the failed read,
  the object of connection 0 is gone and its write handler, which is still to run, is
  called on a destroyed object.
\<close>

lemma write_handler_on_destroyed_connection:
  "map_option (\<lambda>s. (map fst (objects s), io_outstanding s))
     (exec example_wire
        [Accept_complete 0 True, Call_shutdown [], Read_header_complete 0 False []]
        (startup example_wire))
   = Some ([1], [UdpAsyncReceiveConnectionId,
                 TcpAsyncWrite 0 (ConnectionInfoPtr 0) [0, 0, 0, 0],
                 TcpAsyncAccept 1, UdpAsyncReceiveConnectionId])
   \<and> exec example_wire
        [Accept_complete 0 True, Call_shutdown [], Read_header_complete 0 False [],
         Write_response_complete 0 False True]
        (startup example_wire) = None"
  by (simp add: server_defs conn_defs example_defs close_all_connections_def)

section \<open>C6: telemetry before the datagram peer is bound\<close>




section \<open>C9: the datagram of a data frame\<close>

text \<open>
  C9, as stated, fails: the datagram is not the envelope alone. With a buffer of 4 + 8
  bytes and a frame of 2 bytes the datagram handed to the socket is the envelope of 6
  bytes followed by the 6 bytes the buffer holds behind it.
\<close>

theorem datagram_longer_than_envelope_counterexample:
  "snd (snd (start_udp_write_queued_controller_data_frame example_wire unbound_connection))
     = [UdpAsyncSendDataFrame 0 small_frame
          (envelope example_wire small_frame @ [0, 0, 0, 0, 0, 0]) default_endpoint]
   \<and> envelope example_wire small_frame @ [0, 0, 0, 0, 0, 0] \<noteq> envelope example_wire small_frame"
  by (simp add: conn_defs example_defs unbound_connection_def envelope_def)

text \<open>
  C9, amended. For every data frame write that is started, on a connection whose
  transmit buffer has its fixed size, the datagram handed to the socket is the whole
  transmit buffer: it has \<open>HEADER_SIZE + MAX_DATA_FRAME_MESSAGE_SIZE\<close> bytes, it begins
  with the envelope (the header followed by the body of exactly the declared length), and
  the bytes behind the envelope are the ones the buffer held before the frame was packed.
\<close>

theorem datagram_is_whole_buffer:
  assumes "start_udp_write_queued_controller_data_frame w c = (b, c', ops)"
    and "UdpAsyncSendDataFrame i f d e \<in> set ops"
    and "length (m_dataframe_write_buffer c) = dataframe_buffer_size w"
  shows "length d = dataframe_buffer_size w
       \<and> take (HEADER_SIZE w + ByteSize f) d = envelope w f
       \<and> drop (HEADER_SIZE w + ByteSize f) d
            = drop (HEADER_SIZE w + ByteSize f) (m_dataframe_write_buffer c)
       \<and> m_dataframe_write_buffer c' = d"
  using assms
  by (auto simp: start_udp_write_queued_controller_data_frame_def pack_buffer_def envelope_def
        ByteSize_def dataframe_buffer_size_def
        split: if_splits list.splits option.splits)

theorem datagram_is_whole_buffer_witness:
  "UdpAsyncSendDataFrame 0 small_frame [0, 0, 0, 2, 1, 2, 0, 0, 0, 0, 0, 0] default_endpoint
     \<in> set (snd (snd (start_udp_write_queued_controller_data_frame example_wire unbound_connection)))
   \<and> length (m_dataframe_write_buffer unbound_connection) = dataframe_buffer_size example_wire
   \<and> length [0, 0, 0, 2, 1, 2, 0, 0, 0, 0, 0, 0 :: byte] = dataframe_buffer_size example_wire
   \<and> take (HEADER_SIZE example_wire + ByteSize small_frame) [0, 0, 0, 2, 1, 2, 0, 0, 0, 0, 0, 0]
        = envelope example_wire small_frame"
proof -
  let ?x = "start_udp_write_queued_controller_data_frame example_wire unbound_connection"
  have a: "?x = (fst ?x, fst (snd ?x), snd (snd ?x))" by simp
  have b: "UdpAsyncSendDataFrame 0 small_frame [0, 0, 0, 2, 1, 2, 0, 0, 0, 0, 0, 0] default_endpoint
             \<in> set (snd (snd ?x))"
    by (simp add: conn_defs example_defs unbound_connection_def)
  have c: "length (m_dataframe_write_buffer unbound_connection) = dataframe_buffer_size example_wire"
    by (simp add: unbound_connection_def new_ClientConnection_def
          add_controller_data_frame_to_write_queue_def)
  from datagram_is_whole_buffer [OF a b c] b c show ?thesis by simp
qed

text \<open>
  The bytes behind the envelope can be those of an earlier frame: after a frame of 4
  bytes, the datagram of a frame of 1 byte carries the last 3 bytes of the former.
\<close>

lemma datagram_carries_stale_bytes:
  "map_option outstanding
     (conn_exec example_wire
        [Enqueue_data_frame (ControllerDataFrame [1, 2, 3, 4]), Start_data_frame_write,
         Data_frame_write_complete True True,
         Enqueue_data_frame (ControllerDataFrame [9]), Start_data_frame_write]
        (conn_init example_wire 0))
   = Some [UdpAsyncSendDataFrame 0 (ControllerDataFrame [9])
             [0, 0, 0, 1, 9, 2, 3, 4, 0, 0, 0, 0] default_endpoint]"
  by (simp add: conn_defs example_defs)

section \<open>C7: the bounded tick\<close>

lemma poll_from_bounded:
  "iteration_count \<le> k_max_iteration_count \<Longrightarrow>
     fst (poll_from w io keep_polling iteration_count s) \<le> k_max_iteration_count"
proof (induction w io keep_polling iteration_count s rule: poll_from.induct)
  case (1 w io keep_polling iteration_count s)
  show ?case
  proof (cases "keep_polling \<and> iteration_count < k_max_iteration_count")
    case False
    then have "poll_from w io keep_polling iteration_count s = (iteration_count, Return s)"
      by (subst poll_from.simps) (simp only: if_False)
    with "1.prems" show ?thesis by simp
  next
    case True
    show ?thesis
    proof (cases "and_then (start_udp_queued_data_frame_write w s) (io iteration_count)")
      case (Return s1)
      show ?thesis
      proof (cases "has_queued_controller_data_frames_ready_to_start s1")
        case None
        with True Return show ?thesis by (subst poll_from.simps) simp
      next
        case (Some b)
        from True have "iteration_count + 1 \<le> k_max_iteration_count" by simp
        with "1.IH" [OF True Return Some]
        have "fst (poll_from w io b (iteration_count + 1) s1) \<le> k_max_iteration_count" by simp
        with True Return Some show ?thesis by (subst poll_from.simps) simp
      qed
    next
      case (Throw s1)
      with True show ?thesis by (subst poll_from.simps) simp
    next
      case Undefined
      with True show ?thesis by (subst poll_from.simps) simp
    qed
  qed
qed

text \<open>
  C7. For every state of the server and every behaviour of \<open>io_service.poll()\<close> (any
  function from the iteration and the state to an outcome), \<open>poll()\<close> enters its loop
  body at most 32 times. \<open>poll\<close> is a total function, so the call ends: it returns,
  or an exception of a handler or undefined behaviour ends it earlier.
\<close>

theorem poll_bounded: "fst (poll w io_service_poll s) \<le> 32"
  using poll_from_bounded [of 0 w io_service_poll True s]
  by (simp add: poll_def k_max_iteration_count_def)

text \<open>
  The bound is reached when frames are perpetually ready: on \<open>busy_server\<close> every
  iteration ends in the state it began in, with a frame ready to start, and \<open>poll()\<close>
  returns after 32 iterations with that work left.
\<close>

lemma busy_iteration:
  "and_then (start_udp_queued_data_frame_write example_wire busy_server) (busy_io i)
     = Return busy_server"
  by (simp add: busy_server_def busy_io_def server_defs conn_defs example_defs)

lemma busy_ready:
  "has_queued_controller_data_frames_ready_to_start busy_server = Some True"
  by (simp add: busy_server_def server_defs conn_defs example_defs)

lemma busy_poll_from:
  "i \<le> k_max_iteration_count \<Longrightarrow>
     poll_from example_wire busy_io True i busy_server = (k_max_iteration_count, Return busy_server)"
proof (induction "k_max_iteration_count - i" arbitrary: i)
  case 0
  then have "i = k_max_iteration_count" by simp
  then show ?case by (subst poll_from.simps) simp
next
  case (Suc n)
  then have lt: "i < k_max_iteration_count" and le: "i + 1 \<le> k_max_iteration_count"
    and n: "n = k_max_iteration_count - (i + 1)" by simp_all
  from Suc.hyps(1) [OF n le] lt show ?case
    by (subst poll_from.simps) (simp add: busy_iteration busy_ready)
qed

theorem poll_bounded_witness:
  "fst (poll example_wire busy_io busy_server) \<le> 32
   \<and> poll example_wire busy_io busy_server = (32, Return busy_server)
   \<and> has_queued_controller_data_frames_ready_to_start busy_server = Some True"
  using poll_bounded [of example_wire busy_io busy_server] busy_poll_from [of 0] busy_ready
  by (simp add: poll_def k_max_iteration_count_def)

section \<open>C8: the rendezvous datagram\<close>








section \<open>C10: a notification for an unknown connection\<close>

text \<open>
  C10. For a connection identifier that is not in the registry, \<open>send_notification\<close>
  returns (no error) and changes one thing: the response object its argument points to
  has its \<open>request_id\<close> set to -1. Every connection object, so every queue and every
  flag, the registry and the outstanding operations are as before, and so is every other
  response object. The queues hold pointers: a queue that holds the pointer the call
  was given still holds it, and shows the new \<open>request_id\<close>.
\<close>

theorem send_notification_unknown_id:
  assumes "map_of (connections s) connection_id = None"
  shows "send_notification w connection_id response s
           = Return (s\<lparr> responses := (responses s)
                          (response := (responses s response)\<lparr> request_id := - 1 \<rparr>) \<rparr>)"
  using assms by (simp add: send_notification_def)

text \<open>
  The response \<open>HostPtr 0\<close> is queued on connection 0 with correlation identifier 7.
  A notification with the same pointer for the unknown identifier 5 leaves all objects,
  the registry and the outstanding operations as they are, and the queue of connection 0
  now shows the identifier -1.
\<close>

theorem send_notification_unknown_id_witness:
  "map_of (connections answering_server) 5 = None
   \<and> map_option m_pending_responses (map_of (objects answering_server) 0)
        = Some [ConnectionInfoPtr 0, HostPtr 0]
   \<and> queued_request_ids answering_server 0 = [- 1, 7]
   \<and> (\<exists>s'. send_notification example_wire 5 (HostPtr 0) answering_server = Return s'
          \<and> objects s' = objects answering_server
          \<and> connections s' = connections answering_server
          \<and> io_outstanding s' = io_outstanding answering_server
          \<and> queued_request_ids s' 0 = [- 1, - 1])"
proof -
  let ?s' = "answering_server\<lparr> responses := (responses answering_server)
               (HostPtr 0 := (responses answering_server (HostPtr 0))\<lparr> request_id := - 1 \<rparr>) \<rparr>"
  have h: "map_of (connections answering_server) 5 = None"
    by (simp add: answering_server_def server_defs conn_defs example_defs)
  have q: "map_option m_pending_responses (map_of (objects answering_server) 0)
             = Some [ConnectionInfoPtr 0, HostPtr 0]"
    by (simp add: answering_server_def server_defs conn_defs example_defs)
  have r: "queued_request_ids answering_server 0 = [- 1, 7]"
    by (simp add: queued_request_ids_def answering_server_def server_defs conn_defs example_defs)
  have r': "queued_request_ids ?s' 0 = [- 1, - 1]"
    by (simp add: queued_request_ids_def answering_server_def server_defs conn_defs example_defs)
  from send_notification_unknown_id [OF h, of example_wire "HostPtr 0"]
  have e: "send_notification example_wire 5 (HostPtr 0) answering_server = Return ?s'" .
  have "send_notification example_wire 5 (HostPtr 0) answering_server = Return ?s'
          \<and> objects ?s' = objects answering_server
          \<and> connections ?s' = connections answering_server
          \<and> io_outstanding ?s' = io_outstanding answering_server
          \<and> queued_request_ids ?s' 0 = [- 1, - 1]"
    using e r' by simp
  then have "\<exists>s'. send_notification example_wire 5 (HostPtr 0) answering_server = Return s'
          \<and> objects s' = objects answering_server
          \<and> connections s' = connections answering_server
          \<and> io_outstanding s' = io_outstanding answering_server
          \<and> queued_request_ids s' 0 = [- 1, - 1]"
    by (rule exI)
  with h q r show ?thesis by (intro conjI)
qed

section \<open>C5: the outstanding rendezvous receives\<close>

text \<open>
  C5, as stated, fails: the number of outstanding receives is not always one. After the
  first accepted connection two receives are outstanding, since \<open>start_tcp_accept\<close>
  arms one with every call; after a receive that fails none is outstanding, since
  \<open>handle_udp_read_connection_id\<close> arms none on an error.
\<close>

theorem receives_outstanding_counterexample:
  "map_option receives_outstanding
     (exec example_wire [Accept_complete 0 True] (startup example_wire)) = Some 2
   \<and> map_option receives_outstanding
     (exec example_wire [Receive_connection_id_complete False]
        (startup example_wire)) = Some 0"
  by (simp add: server_defs conn_defs example_defs receives_outstanding_def)

lemma rendezvous_ops_simps [simp]:
  "rendezvous_ops [] = 0"
  "rendezvous_ops (xs @ ys) = rendezvous_ops xs + rendezvous_ops ys"
  "rendezvous_ops (x # xs) = (if is_rendezvous_op x then 1 else 0) + rendezvous_ops xs"
  by (simp_all add: rendezvous_ops_def)

lemma rendezvous_ops_split:
  "rendezvous_ops xs = length (filter is_receive_connection_id xs)
                     + length (filter is_send_connection_result xs)"
proof (induction xs)
  case Nil
  show ?case by simp
next
  case (Cons x xs)
  then show ?case by (cases x) simp_all
qed

lemma take_first_rendezvous_ops:
  "take_first P xs = Some (op, rest) \<Longrightarrow>
     P op \<and> rendezvous_ops xs = (if is_rendezvous_op op then 1 else 0) + rendezvous_ops rest"
proof (induction xs arbitrary: rest)
  case Nil
  then show ?case by simp
next
  case (Cons x xs)
  then show ?case by (auto split: if_splits option.splits)
qed

lemma complete_receive_rendezvous_ops:
  "complete_receive xs = Some ys \<Longrightarrow> rendezvous_ops ys = rendezvous_ops xs"
proof (induction xs arbitrary: ys)
  case Nil
  then show ?case by simp
next
  case (Cons x xs)
  then show ?case by (cases x) (auto split: option.splits)
qed

lemma quiet_start_tcp_write:
  "start_tcp_write_queued_response w h c = (b, c', ops) \<Longrightarrow> rendezvous_ops ops = 0"
  by (auto simp: start_tcp_write_queued_response_def split: if_splits list.splits)

lemma quiet_start_udp_write:
  "start_udp_write_queued_controller_data_frame w c = (b, c', ops) \<Longrightarrow> rendezvous_ops ops = 0"
  by (auto simp: start_udp_write_queued_controller_data_frame_def
        split: if_splits list.splits option.splits)

lemma quiet_enqueue_start_tcp:
  "quiet (\<lambda>c. case start_tcp_write_queued_response w h (add_tcp_response_to_write_queue r c) of
               (_, c', ops) \<Rightarrow> Return (c', ops))"
  by (auto simp: quiet_def ends_in_def split: prod.splits dest: quiet_start_tcp_write)

lemma quiet_start: "start w h c = (h', c', ops) \<Longrightarrow> rendezvous_ops ops = 0"
  by (auto simp: start_def send_connection_info_def
        start_tcp_read_request_header_def Let_def split: prod.splits dest: quiet_start_tcp_write)

lemma quiet_read_header: "quiet (\<lambda>c. Return (handle_tcp_read_request_header w ok received c))"
  by (auto simp: quiet_def ends_in_def handle_tcp_read_request_header_def start_read_body_def
        Let_def split: if_splits)

lemma quiet_read_body: "quiet (\<lambda>c. Return (handle_read_body w h ok received handled c))"
  by (auto simp: quiet_def ends_in_def handle_read_body_def handle_request_def
        start_tcp_read_request_header_def Let_def
        split: if_splits prod.splits option.splits dest: quiet_start_tcp_write)

lemma quiet_write_response: "quiet (handle_write_response_complete w h ok sd)"
  by (auto simp: quiet_def ends_in_def handle_write_response_complete_def Let_def
        split: if_splits prod.splits list.splits outcome.splits dest: quiet_start_tcp_write)

lemma quiet_write_data_frame: "quiet (handle_udp_write_controller_data_frame_complete ok sd)"
  by (auto simp: quiet_def ends_in_def handle_udp_write_controller_data_frame_complete_def
        split: if_splits list.splits outcome.splits)

lemma quiet_stop:
  "quiet (\<lambda>c. case stop b c of Return c' \<Rightarrow> Return (c', []) | Throw c' \<Rightarrow> Throw (c', [])
               | Undefined \<Rightarrow> Undefined)"
  by (auto simp: quiet_def ends_in_def split: outcome.splits)

lemma quiet_enqueue_frame:
  "quiet (\<lambda>c. Return (add_controller_data_frame_to_write_queue f c, []))"
  by (auto simp: quiet_def ends_in_def)

lemma quiet_bind:
  "quiet (\<lambda>c. Return (bind_udp_remote_endpoint e c, []))"
  by (auto simp: quiet_def ends_in_def)

lemma call_on_unarmed:
  "quiet f \<Longrightarrow> ends_in (call_on p f s) s' \<Longrightarrow>
     unarmed s' = unarmed s \<and> connections s' = connections s
     \<and> udp_connecting_remote_endpoint s' = udp_connecting_remote_endpoint s"
  by (auto simp: call_on_def quiet_def ends_in_def unarmed_def
        split: option.splits outcome.splits)

lemma and_then_ends_in:
  "ends_in (and_then r f) s' \<Longrightarrow>
     (\<exists>s1. r = Return s1 \<and> ends_in (f s1) s') \<or> r = Throw s'"
  by (auto simp: and_then_def ends_in_def split: outcome.splits)

lemma scan_from_unarmed:
  "ends_in (start_udp_queued_data_frame_write_from w reg s) s' \<Longrightarrow> unarmed s' = unarmed s"
proof (induction reg arbitrary: s)
  case Nil
  then show ?case by (simp add: ends_in_def)
next
  case (Cons e reg)
  obtain k p where e: "e = (k, p)" by (cases e)
  show ?case
  proof (cases "map_of (objects s) p")
    case None
    with Cons.prems e show ?thesis by (simp add: ends_in_def)
  next
    case (Some c)
    obtain b c' ops where r: "start_udp_write_queued_controller_data_frame w c = (b, c', ops)"
      by (cases "start_udp_write_queued_controller_data_frame w c")
    let ?s1 = "s\<lparr> objects := AList.update p c' (objects s),
                    io_outstanding := io_outstanding s @ ops \<rparr>"
    from quiet_start_udp_write [OF r] have u: "unarmed ?s1 = unarmed s"
      by (simp add: unarmed_def)
    show ?thesis
    proof (cases b)
      case True
      with Cons.prems e Some r u show ?thesis by (auto simp: ends_in_def)
    next
      case False
      with Cons.prems e Some r have "ends_in (start_udp_queued_data_frame_write_from w reg ?s1) s'"
        by simp
      from Cons.IH [OF this] u show ?thesis by simp
    qed
  qed
qed

lemma notify_all_from_unarmed:
  "ends_in (send_notification_to_all_clients_from w r reg s) s' \<Longrightarrow>
     unarmed s' = unarmed s"
proof (induction reg arbitrary: s)
  case Nil
  then show ?case by (simp add: ends_in_def)
next
  case (Cons e reg)
  obtain k p where e: "e = (k, p)" by (cases e)
  let ?f = "\<lambda>c. case start_tcp_write_queued_response w (responses s)
                       (add_tcp_response_to_write_queue r c) of
                  (_, c', ops) \<Rightarrow> Return (c', ops)"
  from Cons.prems e and_then_ends_in
  consider s1 where "ends_in (call_on p ?f s) s1"
      "ends_in (send_notification_to_all_clients_from w r reg s1) s'"
    | "ends_in (call_on p ?f s) s'"
    by (fastforce simp: ends_in_def)
  then show ?case
  proof cases
    case 1
    from call_on_unarmed [OF quiet_enqueue_start_tcp 1(1)] Cons.IH [OF 1(2)] show ?thesis by simp
  next
    case 2
    from call_on_unarmed [OF quiet_enqueue_start_tcp 2] show ?thesis by simp
  qed
qed

lemma close_all_from_unarmed:
  "ends_in (close_all_connections_from fails reg s) s' \<Longrightarrow> unarmed s' = unarmed s"
proof (induction reg arbitrary: s)
  case Nil
  then show ?case by (simp add: ends_in_def)
next
  case (Cons e reg)
  obtain k p where e: "e = (k, p)" by (cases e)
  let ?f = "\<lambda>c. case stop (k \<notin> set fails) c of
                  Return c' \<Rightarrow> Return (c', [])
                | Throw c' \<Rightarrow> Throw (c', [])
                | Undefined \<Rightarrow> Undefined"
  from Cons.prems e and_then_ends_in
  consider s1 where "ends_in (call_on p ?f s) s1"
      "ends_in (close_all_connections_from fails reg s1) s'"
    | "ends_in (call_on p ?f s) s'"
    by (fastforce simp: ends_in_def)
  then show ?case
  proof cases
    case 1
    from call_on_unarmed [OF quiet_stop 1(1)] Cons.IH [OF 1(2)] show ?thesis by simp
  next
    case 2
    from call_on_unarmed [OF quiet_stop 2] show ?thesis by simp
  qed
qed

lemma complete_ends_in:
  "ends_in (complete P handler s) s' \<Longrightarrow>
     (take_first P (io_outstanding s) = None \<and> s' = s)
     \<or> (\<exists>op rest. take_first P (io_outstanding s) = Some (op, rest)
           \<and> ends_in (handler (s\<lparr> io_outstanding := rest \<rparr>)) s')"
  by (auto simp: complete_def ends_in_def split: option.splits)

lemma complete_quiet_unarmed:
  assumes "ends_in (complete P (call_on p f) s) s'" and "quiet f"
    and "\<And>op. P op \<Longrightarrow> \<not> is_rendezvous_op op"
  shows "unarmed s' = unarmed s"
proof -
  from complete_ends_in [OF assms(1)]
  consider "s' = s"
    | op rest where "take_first P (io_outstanding s) = Some (op, rest)"
        "ends_in (call_on p f (s\<lparr> io_outstanding := rest \<rparr>)) s'"
    by blast
  then show ?thesis
  proof cases
    case 1
    then show ?thesis by simp
  next
    case 2
    from take_first_rendezvous_ops [OF 2(1)] assms(3)
    have "rendezvous_ops (io_outstanding s) = rendezvous_ops rest" by auto
    with call_on_unarmed [OF assms(2) 2(2)] show ?thesis by (simp add: unarmed_def)
  qed
qed

lemma destroy_unreferenced_unarmed:
  "ends_in (destroy_unreferenced s) s' \<Longrightarrow> unarmed s' = unarmed s"
  by (auto simp: destroy_unreferenced_def ends_in_def unarmed_def split: if_splits)

lemma complete_shared_unarmed:
  assumes "ends_in (complete_shared P handler s) s'"
    and "\<And>op. P op \<Longrightarrow> \<not> is_rendezvous_op op"
    and "\<And>s0 s1. ends_in (handler s0) s1 \<Longrightarrow> unarmed s1 = unarmed s0"
  shows "unarmed s' = unarmed s"
proof -
  from assms(1)
  have "ends_in (complete P (\<lambda>s1. and_then (handler s1) destroy_unreferenced) s) s'"
    by (simp add: complete_shared_def)
  from complete_ends_in [OF this]
  consider "s' = s"
    | op rest where "take_first P (io_outstanding s) = Some (op, rest)"
        "ends_in (and_then (handler (s\<lparr> io_outstanding := rest \<rparr>)) destroy_unreferenced) s'"
    by blast
  then show ?thesis
  proof cases
    case 1
    then show ?thesis by simp
  next
    case 2
    from take_first_rendezvous_ops [OF 2(1)] assms(2)
    have "rendezvous_ops (io_outstanding s) = rendezvous_ops rest" by auto
    then have u0: "unarmed (s\<lparr> io_outstanding := rest \<rparr>) = unarmed s"
      by (simp add: unarmed_def)
    from and_then_ends_in [OF 2(2)]
    consider s1 where "handler (s\<lparr> io_outstanding := rest \<rparr>) = Return s1"
        "ends_in (destroy_unreferenced s1) s'"
      | "handler (s\<lparr> io_outstanding := rest \<rparr>) = Throw s'"
      by blast
    then show ?thesis
    proof cases
      case 1
      from 1(1) have "ends_in (handler (s\<lparr> io_outstanding := rest \<rparr>)) s1"
        by (simp add: ends_in_def)
      from assms(3) [OF this] destroy_unreferenced_unarmed [OF 1(2)] u0
      show ?thesis by simp
    next
      case 2
      then have "ends_in (handler (s\<lparr> io_outstanding := rest \<rparr>)) s'"
        by (simp add: ends_in_def)
      from assms(3) [OF this] u0 show ?thesis by simp
    qed
  qed
qed

lemma handle_tcp_accept_unarmed:
  assumes "ends_in (handle_tcp_accept w p ok s) s'"
  shows "unarmed s' = unarmed s"
proof (cases ok)
  case False
  with assms show ?thesis by (simp add: handle_tcp_accept_def ends_in_def)
next
  case True
  show ?thesis
  proof (cases "map_of (objects s) p")
    case None
    with True assms show ?thesis by (simp add: handle_tcp_accept_def ends_in_def)
  next
    case (Some c)
    obtain h c' ops where r: "start w (responses s) (c\<lparr> m_tcp_socket_open := True \<rparr>) = (h, c', ops)"
      by (cases "start w (responses s) (c\<lparr> m_tcp_socket_open := True \<rparr>)")
    from quiet_start [OF r] have q: "rendezvous_ops ops = 0" .
    from True Some r assms
    have "s' = start_tcp_accept w
                 (s\<lparr> responses := h, objects := AList.update p c' (objects s),
                     io_outstanding := io_outstanding s @ ops \<rparr>)"
      by (simp add: handle_tcp_accept_def ends_in_def)
    with q show ?thesis
      by (simp add: start_tcp_accept_def start_udp_receive_connection_id_def unarmed_def Let_def)
  qed
qed

lemma step_accept_unarmed:
  assumes "ends_in (step w (Accept_complete p ok) s) s'"
  shows "unarmed s' = unarmed s"
proof -
  have n: "\<And>op. is_accept_of p op \<Longrightarrow> \<not> is_rendezvous_op op"
  proof -
    fix op
    assume "is_accept_of p op"
    then show "\<not> is_rendezvous_op op" by (cases op) simp_all
  qed
  from assms have "ends_in (complete_shared (is_accept_of p) (handle_tcp_accept w p ok) s) s'"
    by simp
  from complete_shared_unarmed [OF this n handle_tcp_accept_unarmed] show ?thesis .
qed

lemma handle_udp_read_connection_id_unarmed:
  assumes "ends_in (handle_udp_read_connection_id True s) s'"
  shows "unarmed s' = unarmed s - 1"
proof (cases "map_of (connections s) (m_udp_connection_id_read_buffer s)")
  case None
  with assms have "s' = start_udp_send_connection_result False s"
    by (simp add: handle_udp_read_connection_id_def ends_in_def)
  then show ?thesis
    by (simp add: start_udp_send_connection_result_def unarmed_def)
next
  case (Some p)
  let ?f = "\<lambda>c. Return (bind_udp_remote_endpoint (udp_connecting_remote_endpoint s) c, [])"
  from Some assms have "ends_in (and_then (call_on p ?f s)
               (\<lambda>s1. Return (start_udp_send_connection_result True s1))) s'"
    by (simp add: handle_udp_read_connection_id_def)
  from and_then_ends_in [OF this]
  consider s1 where "call_on p ?f s = Return s1"
      "s' = start_udp_send_connection_result True s1"
    | "call_on p ?f s = Throw s'"
    by (auto simp: ends_in_def)
  then show ?thesis
  proof cases
    case 1
    from 1(1) have "ends_in (call_on p ?f s) s1" by (simp add: ends_in_def)
    from call_on_unarmed [OF quiet_bind this]
    have "unarmed s1 = unarmed s" by simp
    with 1(2) show ?thesis
      by (simp add: start_udp_send_connection_result_def unarmed_def)
  next
    case 2
    then show ?thesis by (simp add: call_on_def split: option.splits)
  qed
qed

lemma step_datagram_unarmed:
  assumes "ends_in (step w (Datagram_received i e) s) s'"
  shows "unarmed s' = unarmed s"
proof (cases "complete_receive (io_outstanding s)")
  case None
  with assms show ?thesis by (simp add: ends_in_def)
next
  case (Some ys)
  from complete_receive_rendezvous_ops [OF Some] Some assms show ?thesis
    by (auto simp: ends_in_def unarmed_def)
qed

lemma step_receive_unarmed:
  assumes "ends_in (step w (Receive_connection_id_complete ok) s) s'"
  shows "unarmed s \<le> unarmed s' \<and> (ok \<longrightarrow> unarmed s' = unarmed s)"
proof (cases ok)
  case True
  with assms
  have "ends_in (complete is_received_connection_id (handle_udp_read_connection_id True) s) s'"
    by simp
  from complete_ends_in [OF this]
  consider "s' = s"
    | op rest where "take_first is_received_connection_id (io_outstanding s) = Some (op, rest)"
        "ends_in (handle_udp_read_connection_id True (s\<lparr> io_outstanding := rest \<rparr>)) s'"
    by blast
  then show ?thesis
  proof cases
    case 1
    then show ?thesis by simp
  next
    case 2
    from take_first_rendezvous_ops [OF 2(1)]
    have "is_received_connection_id op"
      and r: "rendezvous_ops (io_outstanding s)
                = (if is_rendezvous_op op then 1 else 0) + rendezvous_ops rest"
      by simp_all
    then have "is_rendezvous_op op" by (cases op) simp_all
    with r have "unarmed (s\<lparr> io_outstanding := rest \<rparr>) = unarmed s + 1"
      by (simp add: unarmed_def)
    with handle_udp_read_connection_id_unarmed [OF 2(2)] show ?thesis by simp
  qed
next
  case False
  with assms
  have "ends_in (complete is_armed_receive (handle_udp_read_connection_id False) s) s'"
    by simp
  from complete_ends_in [OF this]
  consider "s' = s"
    | op rest where "take_first is_armed_receive (io_outstanding s) = Some (op, rest)"
        "ends_in (handle_udp_read_connection_id False (s\<lparr> io_outstanding := rest \<rparr>)) s'"
    by blast
  then show ?thesis
  proof cases
    case 1
    then show ?thesis by simp
  next
    case 2
    from take_first_rendezvous_ops [OF 2(1)]
    have r: "rendezvous_ops (io_outstanding s)
                = (if is_rendezvous_op op then 1 else 0) + rendezvous_ops rest"
      by simp
    from 2(2) have "s' = s\<lparr> io_outstanding := rest \<rparr>"
      by (simp add: handle_udp_read_connection_id_def ends_in_def)
    with r False show ?thesis by (simp add: unarmed_def)
  qed
qed

lemma step_send_result_unarmed:
  assumes "ends_in (step w (Send_connection_result_complete ok) s) s'"
  shows "unarmed s' = unarmed s"
proof -
  let ?h = "\<lambda>s1. Return (handle_udp_write_connection_result ok s1)"
  from complete_ends_in [of is_send_connection_result ?h s s'] assms
  consider "s' = s"
    | op rest where "take_first is_send_connection_result (io_outstanding s) = Some (op, rest)"
        "ends_in (?h (s\<lparr> io_outstanding := rest \<rparr>)) s'"
    by auto
  then show ?thesis
  proof cases
    case 1
    then show ?thesis by simp
  next
    case 2
    from take_first_rendezvous_ops [OF 2(1)]
    have "is_send_connection_result op"
      and r: "rendezvous_ops (io_outstanding s) = (if is_rendezvous_op op then 1 else 0) + rendezvous_ops rest"
      by simp_all
    then have "is_rendezvous_op op" by (cases op) simp_all
    with r 2(2) show ?thesis
      by (auto simp: ends_in_def handle_udp_write_connection_result_def
            start_udp_receive_connection_id_def unarmed_def)
  qed
qed

lemma send_notification_unarmed:
  assumes "ends_in (send_notification w i r s) s'"
  shows "unarmed s' = unarmed s"
proof -
  let ?s1 = "s\<lparr> responses := (responses s)(r := (responses s r)\<lparr> request_id := - 1 \<rparr>) \<rparr>"
  have u: "unarmed ?s1 = unarmed s" by (simp add: unarmed_def)
  show ?thesis
  proof (cases "map_of (connections s) i")
    case None
    with assms have "s' = ?s1" by (auto simp: send_notification_def ends_in_def)
    with u show ?thesis by simp
  next
    case (Some p)
    let ?f = "\<lambda>c. case start_tcp_write_queued_response w (responses ?s1)
                    (add_tcp_response_to_write_queue r c) of
                  (_, c', ops) \<Rightarrow> Return (c', ops)"
    from assms Some have "ends_in (call_on p ?f ?s1) s'"
      by (simp add: send_notification_def Let_def)
    from call_on_unarmed [OF quiet_enqueue_start_tcp this] u show ?thesis by simp
  qed
qed

lemma send_notification_to_all_unarmed:
  assumes "ends_in (send_notification_to_all_clients w r s) s'"
  shows "unarmed s' = unarmed s"
proof -
  let ?s1 = "s\<lparr> responses := (responses s)(r := (responses s r)\<lparr> request_id := - 1 \<rparr>) \<rparr>"
  have u: "unarmed ?s1 = unarmed s" by (simp add: unarmed_def)
  from assms have "ends_in (send_notification_to_all_clients_from w r (connections ?s1) ?s1) s'"
    by (simp add: send_notification_to_all_clients_def Let_def)
  from notify_all_from_unarmed [OF this] u show ?thesis by simp
qed

lemma send_controller_data_frame_unarmed:
  assumes "ends_in (send_controller_data_frame w i f s) s'"
  shows "unarmed s' = unarmed s"
proof (cases "map_of (connections s) i")
  case None
  with assms show ?thesis by (simp add: send_controller_data_frame_def ends_in_def)
next
  case (Some p)
  let ?f = "\<lambda>c. Return (add_controller_data_frame_to_write_queue f c, [])"
  from assms Some have "ends_in (and_then (call_on p ?f s) (start_udp_queued_data_frame_write w)) s'"
    by (simp add: send_controller_data_frame_def)
  from and_then_ends_in [OF this]
  consider s1 where "ends_in (call_on p ?f s) s1" "ends_in (start_udp_queued_data_frame_write w s1) s'"
    | "ends_in (call_on p ?f s) s'"
    by (auto simp: ends_in_def)
  then show ?thesis
  proof cases
    case 1
    from call_on_unarmed [OF quiet_enqueue_frame 1(1)]
      scan_from_unarmed [of w "connections s1" s1 s'] 1(2)
    show ?thesis by (simp add: start_udp_queued_data_frame_write_def)
  next
    case 2
    from call_on_unarmed [OF quiet_enqueue_frame 2] show ?thesis by simp
  qed
qed

lemma close_all_connections_unarmed:
  assumes "ends_in (close_all_connections fails s) s'"
  shows "unarmed s' = unarmed s"
proof -
  from and_then_ends_in [of "close_all_connections_from fails (connections s) s"
      "\<lambda>s1. destroy_unreferenced (s1\<lparr> connections := [] \<rparr>)" s'] assms
  consider s1 where "ends_in (close_all_connections_from fails (connections s) s) s1"
      "ends_in (destroy_unreferenced (s1\<lparr> connections := [] \<rparr>)) s'"
    | "ends_in (close_all_connections_from fails (connections s) s) s'"
    by (auto simp: close_all_connections_def ends_in_def)
  then show ?thesis
  proof cases
    case 1
    from close_all_from_unarmed [OF 1(1)] destroy_unreferenced_unarmed [OF 1(2)]
    show ?thesis by (simp add: unarmed_def)
  next
    case 2
    then show ?thesis by (rule close_all_from_unarmed)
  qed
qed

lemma read_header_not_rendezvous: "is_read_header_of p op \<Longrightarrow> \<not> is_rendezvous_op op"
  by (cases op) simp_all

lemma read_body_not_rendezvous: "is_read_body_of p op \<Longrightarrow> \<not> is_rendezvous_op op"
  by (cases op) simp_all

lemma response_write_not_rendezvous: "is_response_write_of p op \<Longrightarrow> \<not> is_rendezvous_op op"
  by (cases op) simp_all

lemma data_frame_write_not_rendezvous: "is_data_frame_write_of p op \<Longrightarrow> \<not> is_rendezvous_op op"
  by (cases op) simp_all

lemma step_unarmed:
  assumes "ends_in (step w e s) s'"
  shows "unarmed s \<le> unarmed s' \<and> (\<not> is_failed_receive e \<longrightarrow> unarmed s' = unarmed s)"
proof (cases e)
  case (Call_send_notification i k)
  with assms send_notification_unarmed [of w i "HostPtr k" s s'] show ?thesis by simp
next
  case (Call_send_notification_to_all_clients k)
  with assms send_notification_to_all_unarmed [of w "HostPtr k" s s'] show ?thesis by simp
next
  case (Host_writes_response k v)
  with assms show ?thesis by (auto simp: ends_in_def unarmed_def)
next
  case (Call_send_controller_data_frame i f)
  with assms send_controller_data_frame_unarmed [of w i f s s'] show ?thesis by simp
next
  case (Call_shutdown fails)
  with assms close_all_connections_unarmed [of fails s s'] show ?thesis by simp
next
  case Telemetry_scan
  with assms scan_from_unarmed [of w "connections s" s s'] show ?thesis
    by (simp add: start_udp_queued_data_frame_write_def)
next
  case (Accept_complete p ok)
  with assms step_accept_unarmed [of w p ok s s'] show ?thesis by simp
next
  case (Read_header_complete p ok received)
  let ?f = "\<lambda>c. Return (handle_tcp_read_request_header w ok received c)"
  from Read_header_complete assms
  have a: "ends_in (complete_shared (is_read_header_of p) (call_on p ?f) s) s'"
    by simp
  have "\<And>s0 s1. ends_in (call_on p ?f s0) s1 \<Longrightarrow> unarmed s1 = unarmed s0"
    using call_on_unarmed [OF quiet_read_header] by blast
  from complete_shared_unarmed [OF a read_header_not_rendezvous this]
  show ?thesis by simp
next
  case (Read_body_complete p ok received handled)
  let ?f = "\<lambda>c. Return (handle_read_body w (responses s) ok received
                          (map_option HostPtr handled) c)"
  from Read_body_complete assms
  have a: "ends_in (complete_shared (is_read_body_of p) (call_on p ?f) s) s'"
    by simp
  have "\<And>s0 s1. ends_in (call_on p ?f s0) s1 \<Longrightarrow> unarmed s1 = unarmed s0"
    using call_on_unarmed [OF quiet_read_body] by blast
  from complete_shared_unarmed [OF a read_body_not_rendezvous this]
  show ?thesis by simp
next
  case (Write_response_complete p ok sd)
  with assms have "ends_in (complete (is_response_write_of p)
       (call_on p (handle_write_response_complete w (responses s) ok sd)) s) s'"
    by simp
  from complete_quiet_unarmed [OF this quiet_write_response response_write_not_rendezvous]
  show ?thesis by simp
next
  case (Write_data_frame_complete p ok sd)
  with assms have "ends_in (complete (is_data_frame_write_of p)
       (call_on p (handle_udp_write_controller_data_frame_complete ok sd)) s) s'"
    by simp
  from complete_quiet_unarmed [OF this quiet_write_data_frame data_frame_write_not_rendezvous]
  show ?thesis by simp
next
  case (Datagram_received i ep)
  with assms step_datagram_unarmed [of w i ep s s'] show ?thesis by simp
next
  case (Receive_connection_id_complete ok)
  with assms step_receive_unarmed [of w ok s s'] show ?thesis by simp
next
  case (Send_connection_result_complete ok)
  with assms step_send_result_unarmed [of w ok s s'] show ?thesis by simp
qed

lemma exec_unarmed:
  "exec w es s = Some s' \<Longrightarrow>
     unarmed s \<le> unarmed s' \<and> ((\<forall>e\<in>set es. \<not> is_failed_receive e) \<longrightarrow> unarmed s' = unarmed s)"
proof (induction es arbitrary: s)
  case Nil
  then show ?case by simp
next
  case (Cons e es)
  from Cons.prems obtain s1 where s1: "ends_in (step w e s) s1" and r: "exec w es s1 = Some s'"
    by (auto simp: ends_in_def split: outcome.splits)
  from step_unarmed [OF s1] Cons.IH [OF r] show ?case by auto
qed

lemma unarmed_startup: "unarmed (startup w) = 0"
  by (simp add: startup_def start_tcp_accept_def new_ServerNetworkManagerImpl_def
        start_udp_receive_connection_id_def unarmed_def Let_def)

text \<open>
  C5, amended. In every state the server reaches after startup, the outstanding
  rendezvous receives and the outstanding rendezvous replies together are at most as
  many as the connections created so far (one at startup and one with every successful
  accept), and exactly as many when no receive has failed: every \<open>start_tcp_accept\<close>
  arms one receive, a received identifier (found or not) turns its receive into one reply,
  and the completion of a reply (with or without error) arms one receive. A receive is
  outstanding until its handler has run.
\<close>

theorem rendezvous_receives_follow_accepts:
  assumes "exec w es (startup w) = Some s"
  shows "int (receives_outstanding s + replies_outstanding s) \<le> next_connection_id s
       \<and> ((\<forall>e\<in>set es. \<not> is_failed_receive e) \<longrightarrow>
            int (receives_outstanding s + replies_outstanding s) = next_connection_id s)"
proof -
  have "unarmed s = next_connection_id s - int (receives_outstanding s + replies_outstanding s)"
    by (simp add: unarmed_def receives_outstanding_def replies_outstanding_def
          rendezvous_ops_split)
  with exec_unarmed [OF assms] unarmed_startup [of w] show ?thesis by auto
qed

theorem rendezvous_receives_follow_accepts_witness:
  "\<exists>s. exec example_wire
          [Accept_complete 0 True, Datagram_received 0 example_sender,
           Receive_connection_id_complete True, Send_connection_result_complete False]
          (startup example_wire) = Some s
     \<and> (\<forall>e\<in>set [Accept_complete 0 True, Datagram_received 0 example_sender,
                    Receive_connection_id_complete True, Send_connection_result_complete False]. \<not> is_failed_receive e)
     \<and> receives_outstanding s = 2 \<and> replies_outstanding s = 0 \<and> next_connection_id s = 2
     \<and> int (receives_outstanding s + replies_outstanding s) \<le> next_connection_id s
     \<and> int (receives_outstanding s + replies_outstanding s) = next_connection_id s"
proof -
  let ?es = "[Accept_complete 0 True, Datagram_received 0 example_sender,
              Receive_connection_id_complete True, Send_connection_result_complete False]"
  have h: "exec example_wire ?es (startup example_wire) = Some (example_run ?es)"
    by (simp add: server_defs conn_defs example_defs)
  have q: "\<forall>e\<in>set ?es. \<not> is_failed_receive e" by simp
  have v: "receives_outstanding (example_run ?es) = 2" "replies_outstanding (example_run ?es) = 0"
    "next_connection_id (example_run ?es) = 2"
    by (simp_all add: server_defs conn_defs example_defs receives_outstanding_def
          replies_outstanding_def)
  from rendezvous_receives_follow_accepts [OF h] q
  have "int (receives_outstanding (example_run ?es) + replies_outstanding (example_run ?es))
          \<le> next_connection_id (example_run ?es)
      \<and> int (receives_outstanding (example_run ?es) + replies_outstanding (example_run ?es))
          = next_connection_id (example_run ?es)"
    by blast
  with h q v
  have "exec example_wire ?es (startup example_wire) = Some (example_run ?es)
     \<and> (\<forall>e\<in>set ?es. \<not> is_failed_receive e)
     \<and> receives_outstanding (example_run ?es) = 2 \<and> replies_outstanding (example_run ?es) = 0
     \<and> next_connection_id (example_run ?es) = 2
     \<and> int (receives_outstanding (example_run ?es) + replies_outstanding (example_run ?es))
          \<le> next_connection_id (example_run ?es)
     \<and> int (receives_outstanding (example_run ?es) + replies_outstanding (example_run ?es))
          = next_connection_id (example_run ?es)"
    by (intro conjI) simp_all
  then show ?thesis by (rule exI)
qed

section \<open>The registry points to objects\<close>

text \<open>
  In every state the server reaches, every pointer in the registry points to an object:
  the registry holds shared pointers, and an object is destroyed only when no shared
  pointer to it is left.
\<close>

lemma map_of_filter_key:
  "map_of (filter (\<lambda>(k, v). P k) xs) k = (if P k then map_of xs k else None)"
  by (induction xs) auto

lemma set_map_insert: "set (map_insert k v m) \<subseteq> insert (k, v) (set m)"
  by (induction m) (auto split: if_splits)

lemma call_on_registry:
  assumes "ends_in (call_on p f s) s'" and "registry_points_to_objects s"
  shows "registry_points_to_objects s'"
proof (cases "map_of (objects s) p")
  case None
  with assms(1) show ?thesis by (simp add: call_on_def ends_in_def)
next
  case (Some c)
  from assms(1) Some obtain c' ops
    where "s' = s\<lparr> objects := AList.update p c' (objects s),
                     io_outstanding := io_outstanding s @ ops \<rparr>"
    by (auto simp: call_on_def ends_in_def split: outcome.splits)
  with assms(2) show ?thesis
    by (auto simp: registry_points_to_objects_def update_conv')
qed

lemma scan_from_registry:
  assumes "ends_in (start_udp_queued_data_frame_write_from w reg s) s'"
    and "registry_points_to_objects s"
  shows "registry_points_to_objects s'"
  using assms
proof (induction reg arbitrary: s)
  case Nil
  then show ?case by (simp add: ends_in_def)
next
  case (Cons e reg)
  obtain k p where e: "e = (k, p)" by (cases e)
  show ?case
  proof (cases "map_of (objects s) p")
    case None
    with Cons.prems(1) e show ?thesis by (simp add: ends_in_def)
  next
    case (Some c)
    obtain b c' ops where r: "start_udp_write_queued_controller_data_frame w c = (b, c', ops)"
      by (cases "start_udp_write_queued_controller_data_frame w c")
    let ?s1 = "s\<lparr> objects := AList.update p c' (objects s),
                    io_outstanding := io_outstanding s @ ops \<rparr>"
    from Cons.prems(2) have i1: "registry_points_to_objects ?s1"
      by (auto simp: registry_points_to_objects_def update_conv')
    show ?thesis
    proof (cases b)
      case True
      with Cons.prems(1) e Some r have "s' = ?s1" by (auto simp: ends_in_def)
      with i1 show ?thesis by simp
    next
      case False
      with Cons.prems(1) e Some r
      have "ends_in (start_udp_queued_data_frame_write_from w reg ?s1) s'" by simp
      from Cons.IH [OF this i1] show ?thesis .
    qed
  qed
qed

lemma notify_all_from_registry:
  assumes "ends_in (send_notification_to_all_clients_from w r reg s) s'"
    and "registry_points_to_objects s"
  shows "registry_points_to_objects s'"
  using assms
proof (induction reg arbitrary: s)
  case Nil
  then show ?case by (simp add: ends_in_def)
next
  case (Cons e reg)
  obtain k p where e: "e = (k, p)" by (cases e)
  let ?f = "\<lambda>c. case start_tcp_write_queued_response w (responses s)
                       (add_tcp_response_to_write_queue r c) of
                  (_, c', ops) \<Rightarrow> Return (c', ops)"
  from Cons.prems(1) e and_then_ends_in
  consider s1 where "ends_in (call_on p ?f s) s1"
      "ends_in (send_notification_to_all_clients_from w r reg s1) s'"
    | "ends_in (call_on p ?f s) s'"
    by (fastforce simp: ends_in_def)
  then show ?case
  proof cases
    case 1
    from Cons.IH [OF 1(2) call_on_registry [OF 1(1) Cons.prems(2)]] show ?thesis .
  next
    case 2
    from call_on_registry [OF 2 Cons.prems(2)] show ?thesis .
  qed
qed

lemma close_all_from_registry:
  assumes "ends_in (close_all_connections_from fails reg s) s'"
    and "registry_points_to_objects s"
  shows "registry_points_to_objects s'"
  using assms
proof (induction reg arbitrary: s)
  case Nil
  then show ?case by (simp add: ends_in_def)
next
  case (Cons e reg)
  obtain k p where e: "e = (k, p)" by (cases e)
  let ?f = "\<lambda>c. case stop (k \<notin> set fails) c of
                  Return c' \<Rightarrow> Return (c', [])
                | Throw c' \<Rightarrow> Throw (c', [])
                | Undefined \<Rightarrow> Undefined"
  from Cons.prems(1) e and_then_ends_in
  consider s1 where "ends_in (call_on p ?f s) s1"
      "ends_in (close_all_connections_from fails reg s1) s'"
    | "ends_in (call_on p ?f s) s'"
    by (fastforce simp: ends_in_def)
  then show ?case
  proof cases
    case 1
    from Cons.IH [OF 1(2) call_on_registry [OF 1(1) Cons.prems(2)]] show ?thesis .
  next
    case 2
    from call_on_registry [OF 2 Cons.prems(2)] show ?thesis .
  qed
qed

lemma destroy_unreferenced_registry:
  assumes "ends_in (destroy_unreferenced s) s'" and "registry_points_to_objects s"
  shows "registry_points_to_objects s'"
proof -
  from assms(1) have s': "s' = s\<lparr> objects := filter (\<lambda>(p, c). referenced s p) (objects s) \<rparr>"
    by (auto simp: destroy_unreferenced_def ends_in_def split: if_splits)
  have "map_of (objects s') p \<noteq> None" if "(k, p) \<in> set (connections s)" for k p
  proof -
    from that have "referenced s p" by (force simp: referenced_def)
    moreover from that assms(2) have "map_of (objects s) p \<noteq> None"
      by (auto simp: registry_points_to_objects_def)
    ultimately show ?thesis using s' by (simp add: map_of_filter_key)
  qed
  with s' show ?thesis by (auto simp: registry_points_to_objects_def)
qed

lemma start_tcp_accept_registry:
  assumes "registry_points_to_objects s"
  shows "registry_points_to_objects (start_tcp_accept w s)"
proof -
  have "map_of (objects (start_tcp_accept w s)) p \<noteq> None"
    if "(k, p) \<in> set (connections (start_tcp_accept w s))" for k p
  proof -
    from that set_map_insert [of "next_connection_id s" "next_connection_id s" "connections s"]
    have "(k, p) = (next_connection_id s, next_connection_id s) \<or> (k, p) \<in> set (connections s)"
      by (auto simp: start_tcp_accept_def start_udp_receive_connection_id_def Let_def)
    with assms show ?thesis
      by (auto simp: registry_points_to_objects_def start_tcp_accept_def
            start_udp_receive_connection_id_def Let_def update_conv')
  qed
  then show ?thesis by (auto simp: registry_points_to_objects_def)
qed

lemma handle_tcp_accept_registry:
  assumes "ends_in (handle_tcp_accept w p ok s) s'" and "registry_points_to_objects s"
  shows "registry_points_to_objects s'"
proof (cases ok)
  case False
  with assms show ?thesis by (simp add: handle_tcp_accept_def ends_in_def)
next
  case True
  show ?thesis
  proof (cases "map_of (objects s) p")
    case None
    with True assms(1) show ?thesis by (simp add: handle_tcp_accept_def ends_in_def)
  next
    case (Some c)
    obtain h c' ops where r: "start w (responses s) (c\<lparr> m_tcp_socket_open := True \<rparr>) = (h, c', ops)"
      by (cases "start w (responses s) (c\<lparr> m_tcp_socket_open := True \<rparr>)")
    let ?s1 = "s\<lparr> responses := h, objects := AList.update p c' (objects s),
                   io_outstanding := io_outstanding s @ ops \<rparr>"
    from assms(2) have "registry_points_to_objects ?s1"
      by (auto simp: registry_points_to_objects_def update_conv')
    from start_tcp_accept_registry [OF this, of w] True Some r assms(1)
    show ?thesis by (simp add: handle_tcp_accept_def ends_in_def)
  qed
qed

lemma handle_udp_read_connection_id_registry:
  assumes "ends_in (handle_udp_read_connection_id ok s) s'" and "registry_points_to_objects s"
  shows "registry_points_to_objects s'"
proof (cases "ok \<and> map_of (connections s) (m_udp_connection_id_read_buffer s) \<noteq> None")
  case False
  with assms(1) have "s' = s \<or> s' = start_udp_send_connection_result False s"
    by (auto simp: handle_udp_read_connection_id_def ends_in_def split: if_splits)
  with assms(2) show ?thesis
    by (auto simp: registry_points_to_objects_def start_udp_send_connection_result_def)
next
  case True
  then obtain p where p: "map_of (connections s) (m_udp_connection_id_read_buffer s) = Some p"
    by auto
  let ?f = "\<lambda>c. Return (bind_udp_remote_endpoint (udp_connecting_remote_endpoint s) c, [])"
  from True p assms(1) have "ends_in (and_then (call_on p ?f s)
               (\<lambda>s1. Return (start_udp_send_connection_result True s1))) s'"
    by (simp add: handle_udp_read_connection_id_def)
  from and_then_ends_in [OF this]
  consider s1 where "ends_in (call_on p ?f s) s1"
      "s' = start_udp_send_connection_result True s1"
    | "ends_in (call_on p ?f s) s'"
    by (auto simp: ends_in_def)
  then show ?thesis
  proof cases
    case 1
    from call_on_registry [OF 1(1) assms(2)] 1(2) show ?thesis
      by (auto simp: registry_points_to_objects_def start_udp_send_connection_result_def)
  next
    case 2
    from call_on_registry [OF 2 assms(2)] show ?thesis .
  qed
qed

lemma complete_registry:
  assumes "ends_in (complete P handler s) s'" and "registry_points_to_objects s"
    and "\<And>s0 s1. ends_in (handler s0) s1 \<Longrightarrow> registry_points_to_objects s0
           \<Longrightarrow> registry_points_to_objects s1"
  shows "registry_points_to_objects s'"
proof -
  from complete_ends_in [OF assms(1)]
  consider "s' = s"
    | rest where "ends_in (handler (s\<lparr> io_outstanding := rest \<rparr>)) s'"
    by blast
  then show ?thesis
  proof cases
    case 1
    with assms(2) show ?thesis by simp
  next
    case 2
    from assms(2) have "registry_points_to_objects (s\<lparr> io_outstanding := rest \<rparr>)"
      by (simp add: registry_points_to_objects_def)
    from assms(3) [OF 2 this] show ?thesis .
  qed
qed

lemma complete_shared_registry:
  assumes "ends_in (complete_shared P handler s) s'" and "registry_points_to_objects s"
    and "\<And>s0 s1. ends_in (handler s0) s1 \<Longrightarrow> registry_points_to_objects s0
           \<Longrightarrow> registry_points_to_objects s1"
  shows "registry_points_to_objects s'"
proof -
  have h: "registry_points_to_objects s1"
    if "ends_in (and_then (handler s0) destroy_unreferenced) s1"
      and "registry_points_to_objects s0" for s0 s1
  proof -
    from and_then_ends_in [OF that(1)]
    consider s2 where "ends_in (handler s0) s2" "ends_in (destroy_unreferenced s2) s1"
      | "ends_in (handler s0) s1"
      by (auto simp: ends_in_def)
    then show ?thesis
    proof cases
      case 1
      from destroy_unreferenced_registry [OF 1(2) assms(3) [OF 1(1) that(2)]] show ?thesis .
    next
      case 2
      from assms(3) [OF 2 that(2)] show ?thesis .
    qed
  qed
  from assms(1)
  have "ends_in (complete P (\<lambda>s1. and_then (handler s1) destroy_unreferenced) s) s'"
    by (simp add: complete_shared_def)
  from complete_registry [OF this assms(2) h] show ?thesis .
qed

lemma step_registry:
  assumes "ends_in (step w e s) s'" and "registry_points_to_objects s"
  shows "registry_points_to_objects s'"
proof (cases e)
  case (Call_send_notification i k)
  let ?s1 = "s\<lparr> responses := (responses s)
                (HostPtr k := (responses s (HostPtr k))\<lparr> request_id := - 1 \<rparr>) \<rparr>"
  from assms(2) have i1: "registry_points_to_objects ?s1"
    by (simp add: registry_points_to_objects_def)
  show ?thesis
  proof (cases "map_of (connections s) i")
    case None
    with Call_send_notification assms(1) have "s' = ?s1"
      by (auto simp: send_notification_def ends_in_def)
    with i1 show ?thesis by simp
  next
    case (Some p)
    let ?f = "\<lambda>c. case start_tcp_write_queued_response w (responses ?s1)
                    (add_tcp_response_to_write_queue (HostPtr k) c) of
                  (_, c', ops) \<Rightarrow> Return (c', ops)"
    from Call_send_notification assms(1) Some have "ends_in (call_on p ?f ?s1) s'"
      by (simp add: send_notification_def Let_def)
    from call_on_registry [OF this i1] show ?thesis .
  qed
next
  case (Call_send_notification_to_all_clients k)
  let ?s1 = "s\<lparr> responses := (responses s)
                (HostPtr k := (responses s (HostPtr k))\<lparr> request_id := - 1 \<rparr>) \<rparr>"
  from assms(2) have i1: "registry_points_to_objects ?s1"
    by (simp add: registry_points_to_objects_def)
  from Call_send_notification_to_all_clients assms(1)
  have "ends_in (send_notification_to_all_clients_from w (HostPtr k) (connections ?s1) ?s1) s'"
    by (simp add: send_notification_to_all_clients_def Let_def)
  from notify_all_from_registry [OF this i1] show ?thesis .
next
  case (Host_writes_response k v)
  with assms show ?thesis by (auto simp: ends_in_def registry_points_to_objects_def)
next
  case (Call_send_controller_data_frame i f)
  show ?thesis
  proof (cases "map_of (connections s) i")
    case None
    with Call_send_controller_data_frame assms show ?thesis
      by (simp add: send_controller_data_frame_def ends_in_def)
  next
    case (Some p)
    let ?f = "\<lambda>c. Return (add_controller_data_frame_to_write_queue f c, [])"
    from Call_send_controller_data_frame assms(1) Some
    have "ends_in (and_then (call_on p ?f s) (start_udp_queued_data_frame_write w)) s'"
      by (simp add: send_controller_data_frame_def)
    from and_then_ends_in [OF this]
    consider s1 where "ends_in (call_on p ?f s) s1"
        "ends_in (start_udp_queued_data_frame_write w s1) s'"
      | "ends_in (call_on p ?f s) s'"
      by (auto simp: ends_in_def)
    then show ?thesis
    proof cases
      case 1
      from 1(2) have "ends_in (start_udp_queued_data_frame_write_from w (connections s1) s1) s'"
        by (simp add: start_udp_queued_data_frame_write_def)
      from scan_from_registry [OF this call_on_registry [OF 1(1) assms(2)]] show ?thesis .
    next
      case 2
      from call_on_registry [OF 2 assms(2)] show ?thesis .
    qed
  qed
next
  case (Call_shutdown fails)
  with assms(1) have "ends_in (and_then (close_all_connections_from fails (connections s) s)
       (\<lambda>s1. destroy_unreferenced (s1\<lparr> connections := [] \<rparr>))) s'"
    by (simp add: close_all_connections_def)
  from and_then_ends_in [OF this]
  consider s1 where "ends_in (destroy_unreferenced (s1\<lparr> connections := [] \<rparr>)) s'"
    | "ends_in (close_all_connections_from fails (connections s) s) s'"
    by (auto simp: ends_in_def)
  then show ?thesis
  proof cases
    case 1
    have "registry_points_to_objects (s1\<lparr> connections := [] \<rparr>)"
      by (simp add: registry_points_to_objects_def)
    from destroy_unreferenced_registry [OF 1 this] show ?thesis .
  next
    case 2
    from close_all_from_registry [OF 2 assms(2)] show ?thesis .
  qed
next
  case Telemetry_scan
  with assms(1) have "ends_in (start_udp_queued_data_frame_write_from w (connections s) s) s'"
    by (simp add: start_udp_queued_data_frame_write_def)
  from scan_from_registry [OF this assms(2)] show ?thesis .
next
  case (Accept_complete p ok)
  with assms(1)
  have "ends_in (complete_shared (is_accept_of p) (handle_tcp_accept w p ok) s) s'" by simp
  from complete_shared_registry [OF this assms(2) handle_tcp_accept_registry] show ?thesis .
next
  case (Read_header_complete p ok received)
  with assms(1)
  have "ends_in (complete_shared (is_read_header_of p)
       (call_on p (\<lambda>c. Return (handle_tcp_read_request_header w ok received c))) s) s'"
    by simp
  from complete_shared_registry [OF this assms(2) call_on_registry] show ?thesis .
next
  case (Read_body_complete p ok received handled)
  with assms(1)
  have "ends_in (complete_shared (is_read_body_of p)
       (call_on p (\<lambda>c. Return (handle_read_body w (responses s) ok received
                                  (map_option HostPtr handled) c))) s) s'"
    by simp
  from complete_shared_registry [OF this assms(2) call_on_registry] show ?thesis .
next
  case (Write_response_complete p ok sd)
  with assms(1) have "ends_in (complete (is_response_write_of p)
       (call_on p (handle_write_response_complete w (responses s) ok sd)) s) s'"
    by simp
  from complete_registry [OF this assms(2) call_on_registry] show ?thesis .
next
  case (Write_data_frame_complete p ok sd)
  with assms(1) have "ends_in (complete (is_data_frame_write_of p)
       (call_on p (handle_udp_write_controller_data_frame_complete ok sd)) s) s'"
    by simp
  from complete_registry [OF this assms(2) call_on_registry] show ?thesis .
next
  case (Datagram_received i ep)
  with assms show ?thesis
    by (auto simp: ends_in_def registry_points_to_objects_def split: option.splits)
next
  case (Receive_connection_id_complete ok)
  show ?thesis
  proof (cases ok)
    case True
    with Receive_connection_id_complete assms(1)
    have "ends_in (complete is_received_connection_id (handle_udp_read_connection_id True) s) s'"
      by simp
    from complete_registry [OF this assms(2) handle_udp_read_connection_id_registry]
    show ?thesis .
  next
    case False
    with Receive_connection_id_complete assms(1)
    have "ends_in (complete is_armed_receive (handle_udp_read_connection_id False) s) s'"
      by simp
    from complete_registry [OF this assms(2) handle_udp_read_connection_id_registry]
    show ?thesis .
  qed
next
  case (Send_connection_result_complete ok)
  let ?h = "\<lambda>s1. Return (handle_udp_write_connection_result ok s1)"
  have h: "registry_points_to_objects s1"
    if "ends_in (?h s0) s1" and "registry_points_to_objects s0" for s0 s1
    using that
    by (auto simp: ends_in_def handle_udp_write_connection_result_def
          start_udp_receive_connection_id_def registry_points_to_objects_def)
  from Send_connection_result_complete assms(1)
  have "ends_in (complete is_send_connection_result ?h s) s'" by simp
  from complete_registry [OF this assms(2) h] show ?thesis .
qed

lemma reachable_registry_points_to_objects:
  "exec w es (startup w) = Some s \<Longrightarrow> registry_points_to_objects s"
proof -
  have "registry_points_to_objects new_ServerNetworkManagerImpl"
    by (simp add: registry_points_to_objects_def new_ServerNetworkManagerImpl_def)
  then have i0: "registry_points_to_objects (startup w)"
    unfolding startup_def by (rule start_tcp_accept_registry)
  have "exec w es s0 = Some s \<Longrightarrow> registry_points_to_objects s0
          \<Longrightarrow> registry_points_to_objects s" for s0
  proof (induction es arbitrary: s0)
    case Nil
    then show ?case by simp
  next
    case (Cons e es)
    from Cons.prems(1) obtain s1 where s1: "ends_in (step w e s0) s1"
      and r: "exec w es s1 = Some s"
      by (auto simp: ends_in_def split: outcome.splits)
    from Cons.IH [OF r step_registry [OF s1 Cons.prems(2)]] show ?case .
  qed
  from this [of "startup w"] i0 show "exec w es (startup w) = Some s
    \<Longrightarrow> registry_points_to_objects s" by simp
qed

section \<open>C2: writes on the shared datagram socket\<close>

text \<open>
  C2, as stated, fails: two writes are outstanding on the datagram socket at once. The
  first client is accepted, its rendezvous datagram is received and the reply is started;
  before the handler of the reply has run, a data frame is sent to the client and its
  write is started too.
\<close>

theorem shared_socket_two_writes_counterexample:
  "map_option udp_writes_outstanding
     (exec example_wire
        [Accept_complete 0 True,
         Datagram_received 0 example_sender, Receive_connection_id_complete True,
         Call_send_controller_data_frame 0 small_frame]
        (startup example_wire))
   = Some [UdpAsyncSendConnectionResult True example_sender,
           UdpAsyncSendDataFrame 0 small_frame [0, 0, 0, 2, 1, 2, 0, 0, 0, 0, 0, 0]
             example_sender]"
  by (simp add: server_defs conn_defs example_defs udp_writes_outstanding_def)

text \<open>
  Two data frame writes can be outstanding as well: the scan stops at the first
  connection that reports a write in progress, and here the write is started on a
  connection before the one whose write is pending.
\<close>

lemma two_data_frame_writes_outstanding:
  "map_option udp_writes_outstanding
     (exec example_wire
        [Accept_complete 0 True, Accept_complete 1 True,
         Call_send_controller_data_frame 1 small_frame,
         Call_send_controller_data_frame 0 small_frame]
        (startup example_wire))
   = Some [UdpAsyncSendDataFrame 1 small_frame [0, 0, 0, 2, 1, 2, 0, 0, 0, 0, 0, 0]
             default_endpoint,
           UdpAsyncSendDataFrame 0 small_frame [0, 0, 0, 2, 1, 2, 0, 0, 0, 0, 0, 0]
             default_endpoint]"
  by (simp add: server_defs conn_defs example_defs udp_writes_outstanding_def)

text \<open>
  An attempt that answers \<open>false\<close> initiates nothing and changes at most
  \<open>m_packed_dataframe\<close>, which no attempt reads. An attempt that answers \<open>true\<close>
  has found a write pending and initiates nothing, or initiates the write of the head
  frame.
\<close>

lemma attempt_passes:
  assumes "start_udp_write_queued_controller_data_frame w c = (False, c', ops)"
  shows "ops = [] \<and> c'\<lparr> m_packed_dataframe := None \<rparr> = c\<lparr> m_packed_dataframe := None \<rparr>"
  using assms
  by (auto simp: start_udp_write_queued_controller_data_frame_def
        split: if_splits list.splits option.splits)

lemma attempt_in_progress:
  assumes "start_udp_write_queued_controller_data_frame w c = (True, c', ops)"
  shows "ops = []
       \<or> (\<exists>f fs buf. \<not> m_connection_stopped c \<and> \<not> m_has_pending_udp_write c
            \<and> m_pending_dataframes c = f # fs
            \<and> pack_buffer w f (m_dataframe_write_buffer c) (dataframe_buffer_size w) = Some buf
            \<and> ops = [UdpAsyncSendDataFrame (m_connection_id c) f
                       (take (dataframe_buffer_size w) buf) (m_udp_remote_endpoint c)])"
  using assms
  by (auto simp: start_udp_write_queued_controller_data_frame_def
        split: if_splits list.splits option.splits)

lemma write_in_progress_packed:
  "write_in_progress w (c\<lparr> m_packed_dataframe := x \<rparr>) = write_in_progress w c"
  by (simp add: write_in_progress_def start_udp_write_queued_controller_data_frame_def
        split: list.splits option.splits)

lemma same_but_packed:
  assumes "c\<lparr> m_packed_dataframe := None \<rparr> = c0\<lparr> m_packed_dataframe := None \<rparr>"
  shows "m_connection_stopped c = m_connection_stopped c0"
    and "m_has_pending_udp_write c = m_has_pending_udp_write c0"
    and "m_pending_dataframes c = m_pending_dataframes c0"
    and "m_dataframe_write_buffer c = m_dataframe_write_buffer c0"
    and "m_connection_id c = m_connection_id c0"
    and "m_udp_remote_endpoint c = m_udp_remote_endpoint c0"
    and "write_in_progress w c = write_in_progress w c0"
proof -
  from arg_cong [OF assms, of m_connection_stopped]
  show "m_connection_stopped c = m_connection_stopped c0" by simp
  from arg_cong [OF assms, of m_has_pending_udp_write]
  show "m_has_pending_udp_write c = m_has_pending_udp_write c0" by simp
  from arg_cong [OF assms, of m_pending_dataframes]
  show "m_pending_dataframes c = m_pending_dataframes c0" by simp
  from arg_cong [OF assms, of m_dataframe_write_buffer]
  show "m_dataframe_write_buffer c = m_dataframe_write_buffer c0" by simp
  from arg_cong [OF assms, of m_connection_id]
  show "m_connection_id c = m_connection_id c0" by simp
  from arg_cong [OF assms, of m_udp_remote_endpoint]
  show "m_udp_remote_endpoint c = m_udp_remote_endpoint c0" by simp
  from arg_cong [OF assms, of "write_in_progress w"]
  show "write_in_progress w c = write_in_progress w c0" by (simp add: write_in_progress_packed)
qed

text \<open>
  The scan from an entry of the registry. \<open>s0\<close> is the state in which the scan has
  begun: the objects of \<open>s\<close> differ from its objects in \<open>m_packed_dataframe\<close> at
  most.
\<close>

lemma scan_from_one_write:
  assumes "\<forall>q. map_option (\<lambda>c. c\<lparr> m_packed_dataframe := None \<rparr>) (map_of (objects s) q)
               = map_option (\<lambda>c. c\<lparr> m_packed_dataframe := None \<rparr>) (map_of (objects s0) q)"
    and "\<forall>(k, p)\<in>set reg. map_of (objects s0) p \<noteq> None"
  shows "\<exists>s'. start_udp_queued_data_frame_write_from w reg s = Return s'
     \<and> (io_outstanding s' = io_outstanding s
        \<or> (\<exists>pre k p post c f fs buf. reg = pre @ (k, p) # post
            \<and> map_of (objects s0) p = Some c
            \<and> \<not> m_connection_stopped c \<and> \<not> m_has_pending_udp_write c
            \<and> m_pending_dataframes c = f # fs
            \<and> pack_buffer w f (m_dataframe_write_buffer c) (dataframe_buffer_size w) = Some buf
            \<and> io_outstanding s'
                 = io_outstanding s @ [UdpAsyncSendDataFrame (m_connection_id c) f
                                         (take (dataframe_buffer_size w) buf)
                                         (m_udp_remote_endpoint c)]
            \<and> (\<forall>(k', p')\<in>set pre. passed_over w s0 p')))"
  using assms
proof (induction reg arbitrary: s)
  case Nil
  then show ?case by simp
next
  case (Cons e reg)
  obtain k p where e: "e = (k, p)" by (cases e)
  from Cons.prems(2) e obtain c0 where c0: "map_of (objects s0) p = Some c0" by auto
  from Cons.prems(2) have reg: "\<forall>(k, p)\<in>set reg. map_of (objects s0) p \<noteq> None" by simp
  from Cons.prems(1) c0
  have "map_option (\<lambda>c. c\<lparr> m_packed_dataframe := None \<rparr>) (map_of (objects s) p)
          = Some (c0\<lparr> m_packed_dataframe := None \<rparr>)"
    by simp
  then obtain c where c: "map_of (objects s) p = Some c"
    and cc0: "c\<lparr> m_packed_dataframe := None \<rparr> = c0\<lparr> m_packed_dataframe := None \<rparr>"
    by (cases "map_of (objects s) p") simp_all
  note same = same_but_packed [OF cc0]
  obtain b c' ops where r: "start_udp_write_queued_controller_data_frame w c = (b, c', ops)"
    by (cases "start_udp_write_queued_controller_data_frame w c")
  let ?s1 = "s\<lparr> objects := AList.update p c' (objects s),
                  io_outstanding := io_outstanding s @ ops \<rparr>"
  show ?case
  proof (cases b)
    case True
    with e c r have s': "start_udp_queued_data_frame_write_from w (e # reg) s = Return ?s1"
      by simp
    from True r attempt_in_progress [of w c c' ops]
    have "ops = []
       \<or> (\<exists>f fs buf. \<not> m_connection_stopped c \<and> \<not> m_has_pending_udp_write c
            \<and> m_pending_dataframes c = f # fs
            \<and> pack_buffer w f (m_dataframe_write_buffer c) (dataframe_buffer_size w) = Some buf
            \<and> ops = [UdpAsyncSendDataFrame (m_connection_id c) f
                       (take (dataframe_buffer_size w) buf) (m_udp_remote_endpoint c)])"
      by simp
    then show ?thesis
    proof (elim disjE conjE exE)
      assume "ops = []"
      with s' show ?thesis by simp
    next
      fix f fs buf
      assume a: "\<not> m_connection_stopped c" "\<not> m_has_pending_udp_write c"
        "m_pending_dataframes c = f # fs"
        "pack_buffer w f (m_dataframe_write_buffer c) (dataframe_buffer_size w) = Some buf"
        "ops = [UdpAsyncSendDataFrame (m_connection_id c) f
                  (take (dataframe_buffer_size w) buf) (m_udp_remote_endpoint c)]"
      from a same c0 e
      have "e # reg = [] @ (k, p) # reg
            \<and> map_of (objects s0) p = Some c0
            \<and> \<not> m_connection_stopped c0 \<and> \<not> m_has_pending_udp_write c0
            \<and> m_pending_dataframes c0 = f # fs
            \<and> pack_buffer w f (m_dataframe_write_buffer c0) (dataframe_buffer_size w) = Some buf
            \<and> io_outstanding ?s1
                 = io_outstanding s @ [UdpAsyncSendDataFrame (m_connection_id c0) f
                                         (take (dataframe_buffer_size w) buf)
                                         (m_udp_remote_endpoint c0)]
            \<and> (\<forall>(k', p')\<in>set []. passed_over w s0 p')"
        by simp
      then have "\<exists>pre k p post c f fs buf. e # reg = pre @ (k, p) # post
            \<and> map_of (objects s0) p = Some c
            \<and> \<not> m_connection_stopped c \<and> \<not> m_has_pending_udp_write c
            \<and> m_pending_dataframes c = f # fs
            \<and> pack_buffer w f (m_dataframe_write_buffer c) (dataframe_buffer_size w) = Some buf
            \<and> io_outstanding ?s1
                 = io_outstanding s @ [UdpAsyncSendDataFrame (m_connection_id c) f
                                         (take (dataframe_buffer_size w) buf)
                                         (m_udp_remote_endpoint c)]
            \<and> (\<forall>(k', p')\<in>set pre. passed_over w s0 p')"
        by (intro exI)
      with s' show ?thesis by simp
    qed
  next
    case False
    with r attempt_passes [of w c c' ops]
    have ops: "ops = []"
      and cc': "c'\<lparr> m_packed_dataframe := None \<rparr> = c\<lparr> m_packed_dataframe := None \<rparr>"
      by simp_all
    from False r have "\<not> write_in_progress w c" by (simp add: write_in_progress_def)
    with same(7) [of w] c0 have po: "passed_over w s0 p" by (simp add: passed_over_def)
    have v1: "\<forall>q. map_option (\<lambda>c. c\<lparr> m_packed_dataframe := None \<rparr>) (map_of (objects ?s1) q)
               = map_option (\<lambda>c. c\<lparr> m_packed_dataframe := None \<rparr>) (map_of (objects s0) q)"
    proof
      fix q
      show "map_option (\<lambda>c. c\<lparr> m_packed_dataframe := None \<rparr>) (map_of (objects ?s1) q)
               = map_option (\<lambda>c. c\<lparr> m_packed_dataframe := None \<rparr>) (map_of (objects s0) q)"
      proof (cases "q = p")
        case True
        with cc' cc0 c0 show ?thesis by (simp add: update_conv')
      next
        case False
        with Cons.prems(1) show ?thesis by (simp add: update_conv')
      qed
    qed
    from False e c r
    have step: "start_udp_queued_data_frame_write_from w (e # reg) s
                  = start_udp_queued_data_frame_write_from w reg ?s1"
      by simp
    from Cons.IH [OF v1 reg]
    obtain s' where s': "start_udp_queued_data_frame_write_from w reg ?s1 = Return s'"
      and d: "io_outstanding s' = io_outstanding ?s1
        \<or> (\<exists>pre k p post c f fs buf. reg = pre @ (k, p) # post
            \<and> map_of (objects s0) p = Some c
            \<and> \<not> m_connection_stopped c \<and> \<not> m_has_pending_udp_write c
            \<and> m_pending_dataframes c = f # fs
            \<and> pack_buffer w f (m_dataframe_write_buffer c) (dataframe_buffer_size w) = Some buf
            \<and> io_outstanding s'
                 = io_outstanding ?s1 @ [UdpAsyncSendDataFrame (m_connection_id c) f
                                         (take (dataframe_buffer_size w) buf)
                                         (m_udp_remote_endpoint c)]
            \<and> (\<forall>(k', p')\<in>set pre. passed_over w s0 p'))"
      by blast
    from d have "io_outstanding s' = io_outstanding s
        \<or> (\<exists>pre k p post c f fs buf. e # reg = pre @ (k, p) # post
            \<and> map_of (objects s0) p = Some c
            \<and> \<not> m_connection_stopped c \<and> \<not> m_has_pending_udp_write c
            \<and> m_pending_dataframes c = f # fs
            \<and> pack_buffer w f (m_dataframe_write_buffer c) (dataframe_buffer_size w) = Some buf
            \<and> io_outstanding s'
                 = io_outstanding s @ [UdpAsyncSendDataFrame (m_connection_id c) f
                                         (take (dataframe_buffer_size w) buf)
                                         (m_udp_remote_endpoint c)]
            \<and> (\<forall>(k', p')\<in>set pre. passed_over w s0 p'))"
    proof (elim disjE conjE exE)
      assume "io_outstanding s' = io_outstanding ?s1"
      with ops show ?thesis by simp
    next
      fix pre k1 p1 post c1 f fs buf
      assume a: "reg = pre @ (k1, p1) # post" "map_of (objects s0) p1 = Some c1"
        "\<not> m_connection_stopped c1" "\<not> m_has_pending_udp_write c1"
        "m_pending_dataframes c1 = f # fs"
        "pack_buffer w f (m_dataframe_write_buffer c1) (dataframe_buffer_size w) = Some buf"
        "io_outstanding s'
           = io_outstanding ?s1 @ [UdpAsyncSendDataFrame (m_connection_id c1) f
                                     (take (dataframe_buffer_size w) buf)
                                     (m_udp_remote_endpoint c1)]"
        "\<forall>(k', p')\<in>set pre. passed_over w s0 p'"
      from a(1) e have 1: "e # reg = ((k, p) # pre) @ (k1, p1) # post" by simp
      from a(7) ops have 7: "io_outstanding s'
           = io_outstanding s @ [UdpAsyncSendDataFrame (m_connection_id c1) f
                                     (take (dataframe_buffer_size w) buf)
                                     (m_udp_remote_endpoint c1)]" by simp
      from a(8) po have 8: "\<forall>(k', p')\<in>set ((k, p) # pre). passed_over w s0 p'" by simp
      from 1 a(2-6) 7 8
      have "e # reg = ((k, p) # pre) @ (k1, p1) # post
            \<and> map_of (objects s0) p1 = Some c1
            \<and> \<not> m_connection_stopped c1 \<and> \<not> m_has_pending_udp_write c1
            \<and> m_pending_dataframes c1 = f # fs
            \<and> pack_buffer w f (m_dataframe_write_buffer c1) (dataframe_buffer_size w) = Some buf
            \<and> io_outstanding s'
                 = io_outstanding s @ [UdpAsyncSendDataFrame (m_connection_id c1) f
                                         (take (dataframe_buffer_size w) buf)
                                         (m_udp_remote_endpoint c1)]
            \<and> (\<forall>(k', p')\<in>set ((k, p) # pre). passed_over w s0 p')"
        by (intro conjI)
      then have "\<exists>pre k p post c f fs buf. e # reg = pre @ (k, p) # post
            \<and> map_of (objects s0) p = Some c
            \<and> \<not> m_connection_stopped c \<and> \<not> m_has_pending_udp_write c
            \<and> m_pending_dataframes c = f # fs
            \<and> pack_buffer w f (m_dataframe_write_buffer c) (dataframe_buffer_size w) = Some buf
            \<and> io_outstanding s'
                 = io_outstanding s @ [UdpAsyncSendDataFrame (m_connection_id c) f
                                         (take (dataframe_buffer_size w) buf)
                                         (m_udp_remote_endpoint c)]
            \<and> (\<forall>(k', p')\<in>set pre. passed_over w s0 p')"
        by (intro exI)
      then show ?thesis by (rule disjI2)
    qed
    with step s' show ?thesis by simp
  qed
qed

lemma reply_is_written:
  assumes "registry_points_to_objects s"
  shows "\<exists>b s'. handle_udp_read_connection_id True s = Return s'
           \<and> io_outstanding s'
                = io_outstanding s
                  @ [UdpAsyncSendConnectionResult b (udp_connecting_remote_endpoint s)]"
proof (cases "map_of (connections s) (m_udp_connection_id_read_buffer s)")
  case None
  then show ?thesis
    by (auto simp: handle_udp_read_connection_id_def start_udp_send_connection_result_def)
next
  case (Some p)
  then have "(m_udp_connection_id_read_buffer s, p) \<in> set (connections s)"
    by (rule map_of_SomeD)
  with assms obtain c where "map_of (objects s) p = Some c"
    by (auto simp: registry_points_to_objects_def)
  with Some show ?thesis
    by (auto simp: handle_udp_read_connection_id_def and_then_def call_on_def
          start_udp_send_connection_result_def)
qed

text \<open>
  C2, amended. In a state whose registry points to objects, as every state the server
  reaches does (\<open>reachable_registry_points_to_objects\<close>): (1) the handler of a
  received rendezvous datagram returns and initiates one reply write, to the endpoint
  the receive has stored, whatever is outstanding on the socket: nothing serialises the
  replies. (2) One scan of the registry by \<open>start_udp_queued_data_frame_write\<close>
  returns and initiates no operation or one, a data frame write. When it initiates one,
  the write is that of the head frame of a registered connection that is not stopped and
  has no data frame write pending, packed into that connection's buffer and addressed to
  that connection's peer, and on every connection before it in the order of the registry
  the attempt to start a write has answered that no write is in progress. The scan does
  not look at what is outstanding on the socket.
\<close>

theorem telemetry_scan_starts_at_most_one_write:
  assumes "registry_points_to_objects s"
  shows "(\<exists>b s'. handle_udp_read_connection_id True s = Return s'
            \<and> io_outstanding s'
                 = io_outstanding s
                   @ [UdpAsyncSendConnectionResult b (udp_connecting_remote_endpoint s)])
       \<and> (\<exists>s'. start_udp_queued_data_frame_write w s = Return s'
            \<and> (io_outstanding s' = io_outstanding s
               \<or> (\<exists>pre k p post c f fs buf. connections s = pre @ (k, p) # post
                    \<and> map_of (objects s) p = Some c
                    \<and> \<not> m_connection_stopped c \<and> \<not> m_has_pending_udp_write c
                    \<and> m_pending_dataframes c = f # fs
                    \<and> pack_buffer w f (m_dataframe_write_buffer c) (dataframe_buffer_size w)
                         = Some buf
                    \<and> io_outstanding s'
                         = io_outstanding s @ [UdpAsyncSendDataFrame (m_connection_id c) f
                                                 (take (dataframe_buffer_size w) buf)
                                                 (m_udp_remote_endpoint c)]
                    \<and> (\<forall>(k', p')\<in>set pre. passed_over w s p'))))"
proof -
  from assms have r: "\<forall>(k, p)\<in>set (connections s). map_of (objects s) p \<noteq> None"
    by (simp add: registry_points_to_objects_def)
  have v: "\<forall>q. map_option (\<lambda>c. c\<lparr> m_packed_dataframe := None \<rparr>) (map_of (objects s) q)
               = map_option (\<lambda>c. c\<lparr> m_packed_dataframe := None \<rparr>) (map_of (objects s) q)"
    by simp
  from scan_from_one_write [OF v r, of w] reply_is_written [OF assms]
  show ?thesis by (simp add: start_udp_queued_data_frame_write_def)
qed

text \<open>
  Of two registered connections the second has a frame queued: the scan passes over the
  first and starts the write of the second; and a reply to the identifier 0 is started
  in the same state.
\<close>

theorem telemetry_scan_starts_at_most_one_write_witness:
  "registry_points_to_objects two_clients
   \<and> io_outstanding two_clients = []
   \<and> passed_over example_wire two_clients 0
   \<and> (\<exists>b s'. handle_udp_read_connection_id True two_clients = Return s'
          \<and> io_outstanding s'
               = io_outstanding two_clients
                 @ [UdpAsyncSendConnectionResult b (udp_connecting_remote_endpoint two_clients)])
   \<and> (\<exists>s'. start_udp_queued_data_frame_write example_wire two_clients = Return s'
          \<and> io_outstanding s'
               = [UdpAsyncSendDataFrame 1 small_frame [0, 0, 0, 2, 1, 2, 0, 0, 0, 0, 0, 0]
                    default_endpoint])"
proof -
  have h: "registry_points_to_objects two_clients"
    by (simp add: registry_points_to_objects_def two_clients_def)
  have e: "io_outstanding two_clients = []" by (simp add: two_clients_def)
  have p: "passed_over example_wire two_clients 0"
    by (simp add: passed_over_def write_in_progress_def two_clients_def conn_defs example_defs)
  define s' where "s' = (case start_udp_queued_data_frame_write example_wire two_clients of
                           Return x \<Rightarrow> x | Throw x \<Rightarrow> x | Undefined \<Rightarrow> two_clients)"
  have o: "io_outstanding s'
          = [UdpAsyncSendDataFrame 1 small_frame [0, 0, 0, 2, 1, 2, 0, 0, 0, 0, 0, 0] default_endpoint]"
    unfolding s'_def by (simp add: two_clients_def server_defs conn_defs example_defs)
  from telemetry_scan_starts_at_most_one_write [OF h, of example_wire]
  have reply: "\<exists>b s'. handle_udp_read_connection_id True two_clients = Return s'
          \<and> io_outstanding s'
               = io_outstanding two_clients
                 @ [UdpAsyncSendConnectionResult b (udp_connecting_remote_endpoint two_clients)]"
    and "\<exists>s'. start_udp_queued_data_frame_write example_wire two_clients = Return s'"
    by blast+
  then obtain s1 where s1: "start_udp_queued_data_frame_write example_wire two_clients = Return s1"
    by blast
  then have "s1 = s'" by (simp add: s'_def)
  with s1 o have "start_udp_queued_data_frame_write example_wire two_clients = Return s'
          \<and> io_outstanding s'
               = [UdpAsyncSendDataFrame 1 small_frame [0, 0, 0, 2, 1, 2, 0, 0, 0, 0, 0, 0]
                    default_endpoint]"
    by simp
  then have scan: "\<exists>s'. start_udp_queued_data_frame_write example_wire two_clients = Return s'
          \<and> io_outstanding s'
               = [UdpAsyncSendDataFrame 1 small_frame [0, 0, 0, 2, 1, 2, 0, 0, 0, 0, 0, 0]
                    default_endpoint]"
    by (rule exI)
  from h e p reply scan show ?thesis by (intro conjI)
qed

end
